theory Spec2Isabelle
  imports Complex_Main
begin

section \<open>The task orchestration engine: data model\<close>

text \<open>
  The class \<^verbatim>\<open>Task\<close> drives one conversation. Its fields are mutated by asynchronous
  methods; the model passes the task explicitly and returns it updated. What a method does
  to the outside world (the presentation layer, the persistence layer, event listeners, the
  console) is appended to a trace of events, so that a property like "the log was persisted"
  is a property of the trace. \<^verbatim>\<open>Date.now()\<close> is an argument of every operation that reads
  the clock. A thrown \<^verbatim>\<open>Error\<close> is a value of type \<open>error\<close>.
\<close>

datatype MessageType = TypeAsk | TypeSay

datatype ClineAskResponse = yesButtonClicked | noButtonClicked | messageResponse

type_synonym ClineAsk = string
type_synonym ClineSay = string

text \<open>
  A display message. \<open>m_partial\<close> is the tri-state of the source: \<open>None\<close> is
  \<^verbatim>\<open>undefined\<close>. The structured side payloads are kept as opaque strings.
\<close>

record ClineMessage =
  m_ts :: nat
  m_type :: MessageType
  m_ask :: "ClineAsk option"
  m_say :: "ClineSay option"
  m_text :: "string option"
  m_images :: "string list option"
  m_partial :: "bool option"
  m_progressStatus :: "string option"
  m_checkpoint :: "string option"
  m_contextCondense :: "string option"

datatype Role = RoleUser | RoleAssistant

datatype ContentBlock = TextBlock string | ImageBlock string

record ApiMessage =
  a_role :: Role
  a_content :: "ContentBlock list"
  a_ts :: nat

datatype error =
    TaskAborted
  | AskIgnored1
  | AskIgnored2
  | AskIgnored
  | SaveFailed
  | ApiRequestFailed
  | ProviderReferenceLost
  | TypeError

datatype MessageAction = created | updated

datatype event =
    PostedStateToWebview
  | PostedPartialMessage ClineMessage
  | EmitMessage MessageAction ClineMessage
  | SavedTaskMessages "ClineMessage list"
  | DerivedTaskMetadata "ClineMessage list"
  | EmitTaskTokenUsageUpdated
  | UpdatedTaskHistory
  | SavedApiMessages "ApiMessage list"
  | ConsoleError string
  | ProviderLog string
  | EmitTaskUnpaused
  | EmitTaskAborted
  | EmitTaskAskResponded
  | ReleasedResources
  | RevertedDiffView
  | Delayed nat
  | InitClineWithHistoryItem
  | CreatedMessage
  | Telemetry string

text \<open>
  The task. \<open>intervals\<close> is the runtime's table of live \<^verbatim>\<open>setInterval\<close> handles,
  \<open>nextHandle\<close> the next handle it hands out and \<open>resolved\<close> the handles whose
  \<^verbatim>\<open>waitForResume\<close> promise has been resolved. The last five fields are the environment:
  whether the weak reference to the provider still yields it, whether the persistence
  collaborators throw, and the trace of effects so far.
\<close>

record Task =
  abort :: bool
  abandoned :: bool
  isPaused :: bool
  pauseInterval :: "nat option"
  apiConversationHistory :: "ApiMessage list"
  clineMessages :: "ClineMessage list"
  askResponse :: "ClineAskResponse option"
  askResponseText :: "string option"
  askResponseImages :: "string list option"
  lastMessageTs :: "nat option"
  consecutiveMistakeCount :: nat
  consecutiveMistakeLimit :: nat
  lastApiRequestTime :: "nat option"
  isWaitingForFirstChunk :: bool
  isStreaming :: bool
  didRejectTool :: bool
  didAlreadyUseTool :: bool
  didFinishAbortingStream :: bool
  diffViewIsEditing :: bool
  intervals :: "nat set"
  nextHandle :: nat
  resolved :: "nat set"
  providerAlive :: bool
  saveApiMessagesFails :: bool
  saveTaskMessagesFails :: bool
  taskMetadataFails :: bool
  events :: "event list"

definition emit :: "event \<Rightarrow> Task \<Rightarrow> Task" where
  "emit e s = s\<lparr>events := events s @ [e]\<rparr>"

text \<open>A call through \<^verbatim>\<open>this.providerRef.deref()?.\<close> happens only while the provider is alive.\<close>

definition viaProvider :: "event \<Rightarrow> Task \<Rightarrow> Task" where
  "viaProvider e s = (if providerAlive s then emit e s else s)"

section \<open>Conversation store\<close>

text \<open>
  The persistence collaborators \<^verbatim>\<open>saveApiMessages\<close>, \<^verbatim>\<open>saveTaskMessages\<close> and
  \<^verbatim>\<open>taskMetadata\<close> are imported by the source; all the engine sees of them is that they
  either complete or throw.
\<close>

definition saveApiMessages :: "ApiMessage list \<Rightarrow> Task \<Rightarrow> error + Task" where
  "saveApiMessages ms s =
     (if saveApiMessagesFails s then Inl SaveFailed else Inr (emit (SavedApiMessages ms) s))"

definition saveTaskMessages :: "ClineMessage list \<Rightarrow> Task \<Rightarrow> error + Task" where
  "saveTaskMessages ms s =
     (if saveTaskMessagesFails s then Inl SaveFailed else Inr (emit (SavedTaskMessages ms) s))"

definition taskMetadata :: "ClineMessage list \<Rightarrow> Task \<Rightarrow> error + Task" where
  "taskMetadata ms s =
     (if taskMetadataFails s then Inl SaveFailed else Inr (emit (DerivedTaskMetadata ms) s))"

text \<open>\<^verbatim>\<open>saveApiConversationHistory\<close>: the \<^verbatim>\<open>try\<close> block and its \<^verbatim>\<open>catch\<close>.\<close>

definition saveApiConversationHistory :: "Task \<Rightarrow> Task" where
  "saveApiConversationHistory s =
     (case saveApiMessages (apiConversationHistory s) s of
        Inr s' \<Rightarrow> s'
      | Inl e \<Rightarrow> emit (ConsoleError ''Failed to save API conversation history:'') s)"

definition addToApiConversationHistory :: "Role \<Rightarrow> ContentBlock list \<Rightarrow> nat \<Rightarrow> Task \<Rightarrow> Task" where
  "addToApiConversationHistory r c now s =
     saveApiConversationHistory
       (s\<lparr>apiConversationHistory :=
            apiConversationHistory s @ [\<lparr>a_role = r, a_content = c, a_ts = now\<rparr>]\<rparr>)"

definition overwriteApiConversationHistory :: "ApiMessage list \<Rightarrow> Task \<Rightarrow> Task" where
  "overwriteApiConversationHistory newHistory s =
     saveApiConversationHistory (s\<lparr>apiConversationHistory := newHistory\<rparr>)"

text \<open>
  \<^verbatim>\<open>saveClineMessages\<close>: save, derive the metadata, publish the token usage, update the
  task history; an exception anywhere in the \<^verbatim>\<open>try\<close> block skips the rest of it and is
  logged.
\<close>

definition saveClineMessages :: "Task \<Rightarrow> Task" where
  "saveClineMessages s =
     (case saveTaskMessages (clineMessages s) s of
        Inl e \<Rightarrow> emit (ConsoleError ''Failed to save Costrict messages:'') s
      | Inr s1 \<Rightarrow>
          (case taskMetadata (clineMessages s1) s1 of
             Inl e \<Rightarrow> emit (ConsoleError ''Failed to save Costrict messages:'') s1
           | Inr s2 \<Rightarrow> viaProvider UpdatedTaskHistory (emit EmitTaskTokenUsageUpdated s2)))"

definition addToClineMessages :: "ClineMessage \<Rightarrow> Task \<Rightarrow> Task" where
  "addToClineMessages message s =
     saveClineMessages
       (emit (EmitMessage created message)
          (viaProvider PostedStateToWebview
             (s\<lparr>clineMessages := clineMessages s @ [message]\<rparr>)))"

definition overwriteClineMessages :: "ClineMessage list \<Rightarrow> Task \<Rightarrow> Task" where
  "overwriteClineMessages newMessages s = saveClineMessages (s\<lparr>clineMessages := newMessages\<rparr>)"

definition updateClineMessage :: "ClineMessage \<Rightarrow> Task \<Rightarrow> Task" where
  "updateClineMessage partialMessage s =
     emit (EmitMessage updated partialMessage)
       (viaProvider (PostedPartialMessage partialMessage) s)"

section \<open>Ask/say protocol\<close>

text \<open>\<^verbatim>\<open>lastMessage.field = v\<close> on \<^verbatim>\<open>this.clineMessages.at(-1)\<close>: the last entry is changed in place.\<close>

definition updateLast :: "(ClineMessage \<Rightarrow> ClineMessage) \<Rightarrow> ClineMessage list \<Rightarrow> ClineMessage list" where
  "updateLast f ms = (if ms = [] then [] else butlast ms @ [f (last ms)])"

definition newMessage :: "nat \<Rightarrow> MessageType \<Rightarrow> ClineMessage" where
  "newMessage t k =
     \<lparr>m_ts = t, m_type = k, m_ask = None, m_say = None, m_text = None, m_images = None,
      m_partial = None, m_progressStatus = None, m_checkpoint = None, m_contextCondense = None\<rparr>"

definition isUpdatingPreviousPartialAsk :: "ClineAsk \<Rightarrow> Task \<Rightarrow> bool" where
  "isUpdatingPreviousPartialAsk ty s =
     (clineMessages s \<noteq> [] \<and> m_partial (last (clineMessages s)) = Some True \<and>
      m_type (last (clineMessages s)) = TypeAsk \<and> m_ask (last (clineMessages s)) = Some ty)"

definition isUpdatingPreviousPartialSay :: "ClineSay \<Rightarrow> Task \<Rightarrow> bool" where
  "isUpdatingPreviousPartialSay ty s =
     (clineMessages s \<noteq> [] \<and> m_partial (last (clineMessages s)) = Some True \<and>
      m_type (last (clineMessages s)) = TypeSay \<and> m_say (last (clineMessages s)) = Some ty)"

definition clearAskResponse :: "Task \<Rightarrow> Task" where
  "clearAskResponse s = s\<lparr>askResponse := None, askResponseText := None, askResponseImages := None\<rparr>"

text \<open>
  \<^verbatim>\<open>ask\<close> up to its \<^verbatim>\<open>pWaitFor\<close>: either it throws (left), or it has published the message
  and goes on to wait under the returned \<^verbatim>\<open>askTs\<close> (right). Both partial=true branches
  mutate the task before they throw, so the task is returned in either case.
\<close>

definition ask_begin ::
  "ClineAsk \<Rightarrow> string option \<Rightarrow> bool option \<Rightarrow> string option \<Rightarrow> nat \<Rightarrow> Task \<Rightarrow> (error + nat) \<times> Task" where
  "ask_begin ty txt partial progressStatus now s =
     (if abort s then (Inl TaskAborted, s)
      else case partial of
        Some True \<Rightarrow>
          if isUpdatingPreviousPartialAsk ty s then
            let s1 = s\<lparr>clineMessages := updateLast
                       (\<lambda>m. m\<lparr>m_text := txt, m_partial := Some True, m_progressStatus := progressStatus\<rparr>)
                       (clineMessages s)\<rparr>
            in (Inl AskIgnored1, updateClineMessage (last (clineMessages s1)) s1)
          else
            (Inl AskIgnored2,
             addToClineMessages
               ((newMessage now TypeAsk)\<lparr>m_ask := Some ty, m_text := txt, m_partial := Some True\<rparr>)
               (s\<lparr>lastMessageTs := Some now\<rparr>))
      | Some False \<Rightarrow>
          if isUpdatingPreviousPartialAsk ty s then
            let askTs = m_ts (last (clineMessages s));
                s1 = (clearAskResponse s)\<lparr>lastMessageTs := Some askTs\<rparr>;
                s2 = s1\<lparr>clineMessages := updateLast
                       (\<lambda>m. m\<lparr>m_text := txt, m_partial := Some False, m_progressStatus := progressStatus\<rparr>)
                       (clineMessages s1)\<rparr>;
                s3 = saveClineMessages s2
            in (Inr askTs, updateClineMessage (last (clineMessages s3)) s3)
          else
            (Inr now,
             addToClineMessages
               ((newMessage now TypeAsk)\<lparr>m_ask := Some ty, m_text := txt\<rparr>)
               ((clearAskResponse s)\<lparr>lastMessageTs := Some now\<rparr>))
      | None \<Rightarrow>
          (Inr now,
           addToClineMessages
             ((newMessage now TypeAsk)\<lparr>m_ask := Some ty, m_text := txt\<rparr>)
             ((clearAskResponse s)\<lparr>lastMessageTs := Some now\<rparr>)))"

text \<open>
  \<^verbatim>\<open>say\<close>. \<open>isNonInteractive\<close> is \<^verbatim>\<open>options.isNonInteractive\<close> (absent reads as false).
\<close>

definition setLastMessageTs :: "bool \<Rightarrow> nat \<Rightarrow> Task \<Rightarrow> Task" where
  "setLastMessageTs isNonInteractive t s =
     (if \<not> isNonInteractive then s\<lparr>lastMessageTs := Some t\<rparr> else s)"

definition say ::
  "ClineSay \<Rightarrow> string option \<Rightarrow> string list option \<Rightarrow> bool option \<Rightarrow> string option \<Rightarrow>
   string option \<Rightarrow> bool \<Rightarrow> string option \<Rightarrow> nat \<Rightarrow> Task \<Rightarrow> error + Task" where
  "say ty txt images partial checkpoint progressStatus isNonInteractive contextCondense now s =
     (if abort s then Inl TaskAborted
      else case partial of
        Some True \<Rightarrow>
          if isUpdatingPreviousPartialSay ty s then
            let s1 = s\<lparr>clineMessages := updateLast
                       (\<lambda>m. m\<lparr>m_text := txt, m_images := images, m_partial := Some True,
                               m_progressStatus := progressStatus\<rparr>)
                       (clineMessages s)\<rparr>
            in Inr (updateClineMessage (last (clineMessages s1)) s1)
          else
            Inr (addToClineMessages
                   ((newMessage now TypeSay)\<lparr>m_say := Some ty, m_text := txt, m_images := images,
                      m_partial := Some True, m_contextCondense := contextCondense\<rparr>)
                   (setLastMessageTs isNonInteractive now s))
      | Some False \<Rightarrow>
          if isUpdatingPreviousPartialSay ty s then
            let s1 = setLastMessageTs isNonInteractive (m_ts (last (clineMessages s))) s;
                s2 = s1\<lparr>clineMessages := updateLast
                       (\<lambda>m. m\<lparr>m_text := txt, m_images := images, m_partial := Some False,
                               m_progressStatus := progressStatus\<rparr>)
                       (clineMessages s1)\<rparr>;
                s3 = saveClineMessages s2
            in Inr (updateClineMessage (last (clineMessages s3)) s3)
          else
            Inr (addToClineMessages
                   ((newMessage now TypeSay)\<lparr>m_say := Some ty, m_text := txt, m_images := images,
                      m_contextCondense := contextCondense\<rparr>)
                   (setLastMessageTs isNonInteractive now s))
      | None \<Rightarrow>
          Inr (addToClineMessages
                 ((newMessage now TypeSay)\<lparr>m_say := Some ty, m_text := txt, m_images := images,
                    m_checkpoint := checkpoint, m_contextCondense := contextCondense\<rparr>)
                 (setLastMessageTs isNonInteractive now s)))"

text \<open>\<^verbatim>\<open>handleWebviewAskResponse\<close>: the operator's answer is stored in the shared slot.\<close>

definition handleWebviewAskResponse ::
  "ClineAskResponse \<Rightarrow> string option \<Rightarrow> string list option \<Rightarrow> Task \<Rightarrow> Task" where
  "handleWebviewAskResponse r txt images s =
     s\<lparr>askResponse := Some r, askResponseText := txt, askResponseImages := images\<rparr>"

text \<open>
  \<^verbatim>\<open>pWaitFor(condition, {interval})\<close> checks the condition at once and then once per interval.
  The single thread of the task runs other code between two checks; the script gives, for
  each interval, what that code does to the task. \<open>None\<close>: the condition was false at
  every check the script reaches, so the caller is still blocked.
\<close>

fun pWaitFor :: "(Task \<Rightarrow> bool) \<Rightarrow> (Task \<Rightarrow> Task) list \<Rightarrow> Task \<Rightarrow> Task option" where
  "pWaitFor cond [] s = (if cond s then Some s else None)"
| "pWaitFor cond (f # fs) s = (if cond s then Some s else pWaitFor cond fs (f s))"

text \<open>The states the successive checks of a wait see.\<close>

fun checks :: "(Task \<Rightarrow> Task) list \<Rightarrow> Task \<Rightarrow> Task list" where
  "checks [] s = [s]"
| "checks (f # fs) s = s # checks fs (f s)"

record AskResult =
  response :: "ClineAskResponse option"
  r_text :: "string option"
  r_images :: "string list option"

definition askWaitCondition :: "nat \<Rightarrow> Task \<Rightarrow> bool" where
  "askWaitCondition askTs s = (askResponse s \<noteq> None \<or> lastMessageTs s \<noteq> Some askTs)"

text \<open>\<^verbatim>\<open>ask\<close> after its wait: the superseded check, then the result and the cleared slot.\<close>

definition ask_finish :: "nat \<Rightarrow> Task \<Rightarrow> (error + AskResult) \<times> Task" where
  "ask_finish askTs s =
     (if lastMessageTs s \<noteq> Some askTs then (Inl AskIgnored, s)
      else (Inr \<lparr>response = askResponse s, r_text = askResponseText s,
                 r_images = askResponseImages s\<rparr>,
            emit EmitTaskAskResponded (clearAskResponse s)))"

definition ask ::
  "ClineAsk \<Rightarrow> string option \<Rightarrow> bool option \<Rightarrow> string option \<Rightarrow> nat \<Rightarrow>
   (Task \<Rightarrow> Task) list \<Rightarrow> Task \<Rightarrow> ((error + AskResult) \<times> Task) option" where
  "ask ty txt partial progressStatus now script s =
     (case ask_begin ty txt partial progressStatus now s of
        (Inl e, s1) \<Rightarrow> Some (Inl e, s1)
      | (Inr askTs, s1) \<Rightarrow>
          (case pWaitFor (askWaitCondition askTs) script s1 of
             None \<Rightarrow> None
           | Some s2 \<Rightarrow> Some (ask_finish askTs s2)))"

section \<open>Start, pause, resume, abort\<close>

text \<open>A task as the field initialisers and the constructor's defaults leave it.\<close>

definition newTask :: Task where
  "newTask =
     \<lparr>abort = False, abandoned = False, isPaused = False, pauseInterval = None,
      apiConversationHistory = [], clineMessages = [], askResponse = None,
      askResponseText = None, askResponseImages = None, lastMessageTs = None,
      consecutiveMistakeCount = 0, consecutiveMistakeLimit = 3, lastApiRequestTime = None,
      isWaitingForFirstChunk = False, isStreaming = False, didRejectTool = False,
      didAlreadyUseTool = False, didFinishAbortingStream = False, diffViewIsEditing = False,
      intervals = {}, nextHandle = 0, resolved = {}, providerAlive = True,
      saveApiMessagesFails = False, saveTaskMessagesFails = False, taskMetadataFails = False,
      events = []\<rparr>"

text \<open>
  \<^verbatim>\<open>resumePausedTask\<close>. The two clock readings are those of \<^verbatim>\<open>say\<close> and of
  \<^verbatim>\<open>addToApiConversationHistory\<close>. The \<^verbatim>\<open>catch\<close> logs through the provider and rethrows.
\<close>

definition resumePausedTask :: "string \<Rightarrow> nat \<Rightarrow> nat \<Rightarrow> Task \<Rightarrow> (error + unit) \<times> Task" where
  "resumePausedTask lastMessage now1 now2 s =
     (let s1 = emit EmitTaskUnpaused (s\<lparr>isPaused := False\<rparr>)
      in case say ''subtask_result'' (Some lastMessage) None None None None False None now1 s1 of
           Inl e \<Rightarrow>
             (Inl e, viaProvider (ProviderLog
                ''Error failed to add reply from subtask into conversation of parent task'') s1)
         | Inr s2 \<Rightarrow>
             (Inr (), addToApiConversationHistory RoleUser
                        [TextBlock (''[new_task completed] Result: '' @ lastMessage)] now2 s2))"

text \<open>\<^verbatim>\<open>clearInterval(handle)\<close>: an undefined handle is ignored.\<close>

definition clearInterval :: "nat option \<Rightarrow> Task \<Rightarrow> Task" where
  "clearInterval h s = (case h of None \<Rightarrow> s | Some i \<Rightarrow> s\<lparr>intervals := intervals s - {i}\<rparr>)"

text \<open>
  \<^verbatim>\<open>abortTask\<close>. The teardown calls on the terminal registry, the browser sessions, the
  ignore controller and the file tracker are one event.
\<close>

definition abortTask :: "bool \<Rightarrow> Task \<Rightarrow> Task" where
  "abortTask isAbandoned s =
     (let s1 = (if isAbandoned then s\<lparr>abandoned := True\<rparr> else s);
          s2 = emit EmitTaskAborted (s1\<lparr>abort := True\<rparr>);
          s3 = (if pauseInterval s2 \<noteq> None
                then (clearInterval (pauseInterval s2) s2)\<lparr>pauseInterval := None\<rparr> else s2);
          s4 = emit ReleasedResources s3;
          s5 = (if isStreaming s4 \<and> diffViewIsEditing s4
                then emit RevertedDiffView (s4\<lparr>diffViewIsEditing := False\<rparr>) else s4)
      in saveClineMessages s5)"

text \<open>
  \<^verbatim>\<open>waitForResume\<close> creates a promise and an interval timer whose callback resolves it.
  Starting the wait registers the timer under a fresh handle, which also names the promise.
  \<open>intervalTick h\<close> is the runtime firing the callback of timer \<open>h\<close>; a cleared timer
  never fires.
\<close>

definition waitForResume :: "Task \<Rightarrow> nat \<times> Task" where
  "waitForResume s =
     (nextHandle s,
      s\<lparr>intervals := insert (nextHandle s) (intervals s),
        pauseInterval := Some (nextHandle s),
        nextHandle := Suc (nextHandle s)\<rparr>)"

definition intervalTick :: "nat \<Rightarrow> Task \<Rightarrow> Task" where
  "intervalTick h s =
     (if h \<in> intervals s \<and> \<not> isPaused s
      then (clearInterval (pauseInterval s) s)\<lparr>pauseInterval := None, resolved := insert h (resolved s)\<rparr>
      else s)"

text \<open>What can happen to a task while a pause wait is pending or after it.\<close>

datatype action =
    Tick nat
  | Pause
  | Resume string nat nat
  | Abort bool
  | StartWait
  | WebviewAskResponse ClineAskResponse "string option" "string list option"

fun perform :: "action \<Rightarrow> Task \<Rightarrow> Task" where
  "perform (Tick h) s = intervalTick h s"
| "perform Pause s = s\<lparr>isPaused := True\<rparr>"
| "perform (Resume lastMessage now1 now2) s = snd (resumePausedTask lastMessage now1 now2 s)"
| "perform (Abort isAbandoned) s = abortTask isAbandoned s"
| "perform StartWait s = snd (waitForResume s)"
| "perform (WebviewAskResponse r txt images) s = handleWebviewAskResponse r txt images s"

fun performAll :: "action list \<Rightarrow> Task \<Rightarrow> Task" where
  "performAll [] s = s"
| "performAll (a # as) s = performAll as (perform a s)"

section \<open>Streaming a message through ask and say\<close>

text \<open>
  A message that is streamed reaches the protocol as a run of partial=true calls of one
  kind and subtype, followed by the partial=false call. For \<^verbatim>\<open>say\<close> an aborted task stops
  the run. Every partial \<^verbatim>\<open>ask\<close> throws after it has changed the log; the presenter that
  streams the message catches that error and goes on with the next call, so the run
  continues from the task the call left.
\<close>

fun sayPartials ::
  "ClineSay \<Rightarrow> (string option \<times> string list option \<times> string option \<times> bool \<times> string option \<times> nat) list \<Rightarrow>
   Task \<Rightarrow> error + Task" where
  "sayPartials ty [] s = Inr s"
| "sayPartials ty ((tx, images, progressStatus, isNonInteractive, contextCondense, now) # cs) s =
     (case say ty tx images (Some True) None progressStatus isNonInteractive contextCondense now s of
        Inl e \<Rightarrow> Inl e
      | Inr s' \<Rightarrow> sayPartials ty cs s')"

fun askPartials :: "ClineAsk \<Rightarrow> (string option \<times> string option \<times> nat) list \<Rightarrow> Task \<Rightarrow> Task" where
  "askPartials ty [] s = s"
| "askPartials ty ((tx, progressStatus, now) # cs) s =
     askPartials ty cs (snd (ask_begin ty tx (Some True) progressStatus now s))"

text \<open>
  What it means for a call that left the task \<open>s'\<close> and added the events \<open>added\<close> to
  the trace to have persisted and published the display log: the log as it now is was
  saved, the metadata was derived from it, and the message listeners were notified of its
  last entry.
\<close>

definition persistedAndPublished :: "Task \<Rightarrow> event list \<Rightarrow> bool" where
  "persistedAndPublished s' added =
     (SavedTaskMessages (clineMessages s') \<in> set added \<and>
      DerivedTaskMetadata (clineMessages s') \<in> set added \<and>
      (EmitMessage created (last (clineMessages s')) \<in> set added \<or>
       EmitMessage updated (last (clineMessages s')) \<in> set added))"

section \<open>Task loop: the mistake-limit guard\<close>

text \<open>
  The head of \<^verbatim>\<open>recursivelyMakeClineRequests\<close>: the abort check and the block that runs
  when the consecutive-mistake counter has reached its limit. The text of the ask depends on
  whether the model id contains \<^verbatim>\<open>claude\<close>. \<^verbatim>\<open>formatResponse\<close> is imported by the
  source; its functions \<^verbatim>\<open>tooManyMistakes\<close> and \<^verbatim>\<open>imageBlocks\<close> are parameters. The
  result is the user content the request goes on with, or the error that ends the
  iteration; \<open>None\<close> while the ask is still blocked.
\<close>

definition mistakeLimitText :: "bool \<Rightarrow> string" where
  \<open>mistakeLimitText isClaude =
     (if isClaude
      then ''This may indicate a failure in his thought process or inability to use a tool properly, which can be mitigated with some user guidance (e.g. "Try breaking down the task into smaller steps").''
      else ''Costrict uses complex prompts and iterative task execution that may be challenging for less capable models. For best results, it'' @ [CHR 0x27] @ ''s recommended to use Claude 3.7 Sonnet for its advanced agentic coding capabilities.'')\<close>

definition recursivelyMakeClineRequests_guard ::
  "(string option \<Rightarrow> string) \<Rightarrow> (string list option \<Rightarrow> ContentBlock list) \<Rightarrow> bool \<Rightarrow>
   ContentBlock list \<Rightarrow> nat \<Rightarrow> (Task \<Rightarrow> Task) list \<Rightarrow> nat \<Rightarrow> Task \<Rightarrow>
   ((error + ContentBlock list) \<times> Task) option" where
  "recursivelyMakeClineRequests_guard tooManyMistakes imageBlocks isClaude userContent now script now2 s =
     (if abort s then Some (Inl TaskAborted, s)
      else if consecutiveMistakeLimit s \<le> consecutiveMistakeCount s then
        (case ask ''mistake_limit_reached'' (Some (mistakeLimitText isClaude)) None None now script s of
           None \<Rightarrow> None
         | Some (Inl e, s1) \<Rightarrow> Some (Inl e, s1)
         | Some (Inr res, s1) \<Rightarrow>
             if response res = Some messageResponse then
               (case say ''user_feedback'' (r_text res) (r_images res) None None None False None now2 s1 of
                  Inl e \<Rightarrow> Some (Inl e, s1)
                | Inr s2 \<Rightarrow>
                    Some (Inr (userContent @ [TextBlock (tooManyMistakes (r_text res))] @
                               imageBlocks (r_images res)),
                          (emit (Telemetry ''captureConsecutiveMistakeError'') s2)
                            \<lparr>consecutiveMistakeCount := 0\<rparr>))
             else Some (Inr userContent, s1\<lparr>consecutiveMistakeCount := 0\<rparr>))
      else Some (Inr userContent, s))"

section \<open>Streaming request controller\<close>

text \<open>
  The settings \<^verbatim>\<open>attemptApiRequest\<close> reads from the provider's state. The delays are
  JavaScript numbers; they are modelled as reals, so that \<^verbatim>\<open>Math.ceil\<close> is the ceiling.
\<close>

record ProviderState =
  autoApprovalEnabled :: bool
  alwaysApproveResubmit :: bool
  requestDelaySeconds :: "real option"
  rateLimitSeconds :: "real option"

text \<open>
  What the retry logic reads of a thrown error: its HTTP status, its \<^verbatim>\<open>errorDetails\<close>
  (for each detail its \<^verbatim>\<open>@type\<close> and its \<^verbatim>\<open>retryDelay\<close>) and the message that
  \<^verbatim>\<open>getTaskRequestError\<close> renders for the operator.
\<close>

record ApiError =
  e_status :: "nat option"
  e_errorDetails :: "(string \<times> string option) list option"
  e_message :: string

datatype ApiStreamChunk =
    ReasoningChunk string
  | UsageChunk nat nat "nat option" "nat option" "real option"
  | TextChunk string
  | UndefinedChunk

datatype StreamItem = Yield ApiStreamChunk | Throw string

text \<open>
  What the world does during one call of \<^verbatim>\<open>attemptApiRequest\<close>: the provider state it
  reads, the clock readings on entry and before the request, the clock reading of every
  later \<^verbatim>\<open>say\<close> or \<^verbatim>\<open>ask\<close> (by phase: 0 the rate-limit countdown, 1 the retry
  countdown, 2 the calls after it; and by the seconds left), what other code does to the
  task during each one-second delay, the outcome of awaiting the first chunk, the rest of
  the stream, and what happens while the \<^verbatim>\<open>api_req_failed\<close> ask waits.
\<close>

record Attempt =
  at_state :: ProviderState
  at_now :: nat
  at_requestTime :: nat
  at_clock :: "nat \<Rightarrow> nat \<Rightarrow> nat"
  at_during :: "nat \<Rightarrow> nat \<Rightarrow> Task \<Rightarrow> Task"
  at_first :: "ApiError + ApiStreamChunk"
  at_rest :: "StreamItem list"
  at_ask :: "(Task \<Rightarrow> Task) list"

text \<open>\<^verbatim>\<open>(await this.providerRef.deref()?.getState()) ?? {}\<close>: without a provider every setting is undefined.\<close>

definition getState :: "Attempt \<Rightarrow> Task \<Rightarrow> ProviderState" where
  "getState a s =
     (if providerAlive s then at_state a
      else \<lparr>autoApprovalEnabled = False, alwaysApproveResubmit = False,
            requestDelaySeconds = None, rateLimitSeconds = None\<rparr>)"

definition delay :: "nat \<Rightarrow> Task \<Rightarrow> Task" where
  "delay ms s = emit (Delayed ms) s"

text \<open>Decimal rendering of a number in a template string.\<close>

fun showNat :: "nat \<Rightarrow> string" where
  "showNat n =
     (if n < 10 then [char_of (48 + n)] else showNat (n div 10) @ [char_of (48 + n mod 10)])"

text \<open>
  The rate-limit delay in seconds. \<^verbatim>\<open>if (this.lastApiRequestTime)\<close> is false for an
  undefined time and for 0; \<^verbatim>\<open>rateLimitSeconds || 0\<close> reads an undefined limit as 0.
\<close>

definition rateLimitDelay :: "ProviderState \<Rightarrow> nat \<Rightarrow> Task \<Rightarrow> int" where
  "rateLimitDelay st now s =
     (case lastApiRequestTime s of
        None \<Rightarrow> 0
      | Some t \<Rightarrow>
          if t = 0 then 0
          else \<lceil>max 0 ((case rateLimitSeconds st of None \<Rightarrow> 0 | Some r \<Rightarrow> r) * 1000 -
                          (real now - real t)) / 1000\<rceil>)"

text \<open>\<^verbatim>\<open>requestDelaySeconds || 5\<close>: undefined and 0 give 5.\<close>

definition baseDelay :: "ProviderState \<Rightarrow> real" where
  "baseDelay st =
     (case requestDelaySeconds st of None \<Rightarrow> 5 | Some d \<Rightarrow> if d = 0 then 5 else d)"

definition isDigit :: "char \<Rightarrow> bool" where
  "isDigit c = (48 \<le> (of_char c :: nat) \<and> (of_char c :: nat) \<le> 57)"

definition digitsValue :: "string \<Rightarrow> nat" where
  "digitsValue ds = foldl (\<lambda>acc c. 10 * acc + ((of_char c :: nat) - 48)) 0 ds"

text \<open>\<^verbatim>\<open>retryDelay.match(/^(\d+)s$/)\<close> and \<^verbatim>\<open>Number(match[1])\<close>.\<close>

definition parseRetryDelay :: "string \<Rightarrow> nat option" where
  "parseRetryDelay str =
     (if str \<noteq> [] \<and> last str = CHR ''s'' \<and> butlast str \<noteq> [] \<and> list_all isDigit (butlast str)
      then Some (digitsValue (butlast str)) else None)"

text \<open>The retry delay a 429 error carries in its \<^verbatim>\<open>RetryInfo\<close> detail, if any.\<close>

definition retryDelayHint :: "ApiError \<Rightarrow> nat option" where
  "retryDelayHint err =
     (if e_status err = Some 429 then
        (case e_errorDetails err of
           None \<Rightarrow> None
         | Some details \<Rightarrow>
             (case find (\<lambda>d. fst d = ''type.googleapis.com/google.rpc.RetryInfo'') details of
                None \<Rightarrow> None
              | Some d \<Rightarrow> (case snd d of None \<Rightarrow> None | Some str \<Rightarrow> parseRetryDelay str)))
      else None)"

definition exponentialDelay :: "ApiError \<Rightarrow> ProviderState \<Rightarrow> nat \<Rightarrow> int" where
  "exponentialDelay err st retryAttempt =
     (case retryDelayHint err of
        None \<Rightarrow> \<lceil>baseDelay st * 2 ^ retryAttempt\<rceil>
      | Some n \<Rightarrow> int n + 1)"

definition finalDelay :: "ApiError \<Rightarrow> ProviderState \<Rightarrow> nat \<Rightarrow> int \<Rightarrow> int" where
  "finalDelay err st retryAttempt rld = max (exponentialDelay err st retryAttempt) rld"

text \<open>
  \<^verbatim>\<open>for (let i = n; i > 0; i--) { await this.say(..., true); await delay(1000) }\<close>.
  The error of an aborted \<^verbatim>\<open>say\<close> ends the countdown.
\<close>

fun countdown ::
  "(nat \<Rightarrow> string) \<Rightarrow> (nat \<Rightarrow> nat) \<Rightarrow> (nat \<Rightarrow> Task \<Rightarrow> Task) \<Rightarrow> nat \<Rightarrow> Task \<Rightarrow> error option \<times> Task" where
  "countdown msg clk during 0 s = (None, s)"
| "countdown msg clk during (Suc i) s =
     (case say ''api_req_retry_delayed'' (Some (msg (Suc i))) None (Some True) None None False None
             (clk (Suc i)) s of
        Inl e \<Rightarrow> (Some e, s)
      | Inr s1 \<Rightarrow> countdown msg clk during i (during (Suc i) (delay 1000 s1)))"

definition rateLimitMessage :: "nat \<Rightarrow> string" where
  "rateLimitMessage i = ''Rate limiting for '' @ showNat i @ '' seconds...''"

definition retryMessage :: "string \<Rightarrow> nat \<Rightarrow> string \<Rightarrow> string" where
  "retryMessage errorMsg retryAttempt tail =
     errorMsg @ [CHR 0x0A, CHR 0x0A] @ ''Retry attempt '' @ showNat (retryAttempt + 1) @ [CHR 0x0A] @ tail"

text \<open>
  \<^verbatim>\<open>attemptApiRequest\<close> up to the request: the rate-limit countdown (only on the first
  attempt), the new \<^verbatim>\<open>lastApiRequestTime\<close>, the system prompt (which throws when the
  provider is gone) and the \<^verbatim>\<open>createMessage\<close> call. The context-window step and the
  ceiling on auto-approved requests, which lie between the system prompt and the request,
  do not touch the retry logic and are left out.
\<close>

definition beforeFirstChunk :: "nat \<Rightarrow> Attempt \<Rightarrow> Task \<Rightarrow> error option \<times> Task" where
  "beforeFirstChunk retryAttempt a s =
     (let rld = rateLimitDelay (getState a s) (at_now a) s in
      case (if 0 < rld \<and> retryAttempt = 0
            then countdown rateLimitMessage (at_clock a 0) (at_during a 0) (nat rld) s
            else (None, s)) of
        (Some e, s1) \<Rightarrow> (Some e, s1)
      | (None, s1) \<Rightarrow>
          let s2 = s1\<lparr>lastApiRequestTime := Some (at_requestTime a)\<rparr>
          in if \<not> providerAlive s2 then (Some ProviderReferenceLost, s2)
             else (None, (emit CreatedMessage s2)\<lparr>isWaitingForFirstChunk := True\<rparr>))"

text \<open>
  The automatic retry of the \<^verbatim>\<open>catch\<close> block: the delay, the countdown and the closing
  message. \<open>st\<close> and \<open>rld\<close> are the settings read and the rate-limit delay computed
  on entry.
\<close>

definition retryWait ::
  "nat \<Rightarrow> Attempt \<Rightarrow> ProviderState \<Rightarrow> ApiError \<Rightarrow> int \<Rightarrow> Task \<Rightarrow> error option \<times> Task" where
  "retryWait retryAttempt a st err rld s =
     (case countdown
             (\<lambda>i. retryMessage (e_message err) retryAttempt (''Retrying in '' @ showNat i @ '' seconds...''))
             (at_clock a 1) (at_during a 1)
             (nat (finalDelay err st retryAttempt rld)) s of
        (Some e, s1) \<Rightarrow> (Some e, s1)
      | (None, s1) \<Rightarrow>
          (case say ''api_req_retry_delayed''
                  (Some (retryMessage (e_message err) retryAttempt ''Retrying now...''))
                  None (Some False) None None False None (at_clock a 2 0) s1 of
             Inl e \<Rightarrow> (Some e, s1)
           | Inr s2 \<Rightarrow> (None, s2)))"

text \<open>
  \<^verbatim>\<open>attemptApiRequest\<close>. Each call consumes one scripted attempt; the result is the stream
  the generator yields (the first chunk and the rest) or the error it throws, and
  \<open>None\<close> when the script ends before the request is settled or while the
  \<^verbatim>\<open>api_req_failed\<close> ask is still blocked.
\<close>

fun attemptApiRequest :: "nat \<Rightarrow> Attempt list \<Rightarrow> Task \<Rightarrow> ((error + StreamItem list) \<times> Task) option" where
  "attemptApiRequest retryAttempt [] s = None"
| "attemptApiRequest retryAttempt (a # rest) s =
     (case beforeFirstChunk retryAttempt a s of
        (Some e, s1) \<Rightarrow> Some (Inl e, s1)
      | (None, s1) \<Rightarrow>
          (case at_first a of
             Inr chunk \<Rightarrow> Some (Inr (Yield chunk # at_rest a), s1\<lparr>isWaitingForFirstChunk := False\<rparr>)
           | Inl err \<Rightarrow>
               if autoApprovalEnabled (getState a s) \<and> alwaysApproveResubmit (getState a s) then
                 (case retryWait retryAttempt a (getState a s) err (rateLimitDelay (getState a s) (at_now a) s)
                         (s1\<lparr>isWaitingForFirstChunk := False\<rparr>) of
                    (Some e, s2) \<Rightarrow> Some (Inl e, s2)
                  | (None, s2) \<Rightarrow> attemptApiRequest (Suc retryAttempt) rest s2)
               else
                 (case ask ''api_req_failed'' (Some (e_message err)) None None (at_clock a 2 0) (at_ask a)
                         (s1\<lparr>isWaitingForFirstChunk := False\<rparr>) of
                    None \<Rightarrow> None
                  | Some (Inl e, s2) \<Rightarrow> Some (Inl e, s2)
                  | Some (Inr res, s2) \<Rightarrow>
                      if response res \<noteq> Some yesButtonClicked then Some (Inl ApiRequestFailed, s2)
                      else
                        (case say ''api_req_retried'' None None None None None False None
                                (at_clock a 2 1) s2 of
                           Inl e \<Rightarrow> Some (Inl e, s2)
                         | Inr s3 \<Rightarrow> attemptApiRequest 0 rest s3))))"

section \<open>Task loop: reading the stream\<close>

text \<open>
  The local variables of one request in \<^verbatim>\<open>recursivelyMakeClineRequests\<close>: the text and
  the reasoning accumulated so far and the usage counters.
\<close>

record StreamLocals =
  assistantMessage :: string
  reasoningMessage :: string
  inputTokens :: nat
  outputTokens :: nat
  cacheWriteTokens :: nat
  cacheReadTokens :: nat
  totalCost :: "real option"

datatype ClineApiReqCancelReason = streaming_failed | user_cancelled

text \<open>The \<^verbatim>\<open>message\<close> of a thrown error, as the handler of the stream reads it.\<close>

fun errorMessage :: "error \<Rightarrow> string" where
  "errorMessage TaskAborted = ''task aborted''"
| "errorMessage AskIgnored1 = ''Current ask promise was ignored (#1)''"
| "errorMessage AskIgnored2 = ''Current ask promise was ignored (#2)''"
| "errorMessage AskIgnored = ''Current ask promise was ignored''"
| "errorMessage SaveFailed = ''save failed''"
| "errorMessage ApiRequestFailed = ''API request failed''"
| "errorMessage ProviderReferenceLost = ''Provider reference lost during view transition''"
| "errorMessage TypeError = ''Cannot read properties of undefined''"

text \<open>
  \<^verbatim>\<open>updateApiReqMsg\<close> rewrites the text of the \<^verbatim>\<open>api_req_started\<close> message at
  \<open>lastApiReqIndex\<close>. The JSON it renders (from the old text, the counters, the cost,
  the cancel reason and the failure message) is the argument \<open>info\<close>. Reading the text
  of a message that is not there throws.
\<close>

definition updateApiReqMsg :: "nat \<Rightarrow> string \<Rightarrow> Task \<Rightarrow> error + Task" where
  "updateApiReqMsg lastApiReqIndex info s =
     (if lastApiReqIndex < length (clineMessages s)
      then Inr (s\<lparr>clineMessages :=
                   (clineMessages s)[lastApiReqIndex :=
                      (clineMessages s ! lastApiReqIndex)\<lparr>m_text := Some info\<rparr>]\<rparr>)
      else Inl TypeError)"

definition interruptedMarker :: "ClineApiReqCancelReason \<Rightarrow> string" where
  "interruptedMarker cancelReason =
     [CHR 0x0A, CHR 0x0A] @ ''['' @
     (if cancelReason = streaming_failed then ''Response interrupted by API Error''
      else ''Response interrupted by user'') @ '']''"

text \<open>
  \<^verbatim>\<open>abortStream\<close>: revert the diff view, close a trailing partial message (without a new
  timestamp and without saving), append the interrupted assistant message to the
  model-facing history, update and save the request message, and signal the provider.
\<close>

definition abortStream ::
  "nat \<Rightarrow> StreamLocals \<Rightarrow> ClineApiReqCancelReason \<Rightarrow> string \<Rightarrow> nat \<Rightarrow> Task \<Rightarrow> error option \<times> Task" where
  "abortStream lastApiReqIndex loc cancelReason info now s =
     (let s1 = (if diffViewIsEditing s then emit RevertedDiffView (s\<lparr>diffViewIsEditing := False\<rparr>)
                else s);
          s2 = (if clineMessages s1 \<noteq> [] \<and> m_partial (last (clineMessages s1)) = Some True
                then s1\<lparr>clineMessages :=
                          updateLast (\<lambda>m. m\<lparr>m_partial := Some False\<rparr>) (clineMessages s1)\<rparr>
                else s1);
          s3 = addToApiConversationHistory RoleAssistant
                 [TextBlock (assistantMessage loc @ interruptedMarker cancelReason)] now s2
      in case updateApiReqMsg lastApiReqIndex info s3 of
           Inl e \<Rightarrow> (Some e, s3)
         | Inr s4 \<Rightarrow> (None, (saveClineMessages s4)\<lparr>didFinishAbortingStream := True\<rparr>))"

text \<open>
  What the world does during one iteration of the \<^verbatim>\<open>for await\<close> loop: what other code
  does to the task while the loop awaits the chunk, what the presenter
  (\<^verbatim>\<open>presentAssistantMessage\<close>) does to it when a text chunk has been parsed, the clock
  reading of the iteration, and the JSON that \<^verbatim>\<open>updateApiReqMsg\<close> renders in it.
\<close>

record StepEnv =
  st_meanwhile :: "Task \<Rightarrow> Task"
  st_present :: "Task \<Rightarrow> Task"
  st_now :: nat
  st_info :: string

text \<open>The \<^verbatim>\<open>switch\<close> on the chunk type. An aborted \<^verbatim>\<open>say\<close> throws.\<close>

definition processChunk ::
  "ApiStreamChunk \<Rightarrow> StepEnv \<Rightarrow> StreamLocals \<Rightarrow> Task \<Rightarrow> (error + StreamLocals) \<times> Task" where
  "processChunk chunk e loc s =
     (case chunk of
        ReasoningChunk t \<Rightarrow>
          (case say ''reasoning'' (Some (reasoningMessage loc @ t)) None (Some True) None None False
                  None (st_now e) s of
             Inl err \<Rightarrow> (Inl err, s)
           | Inr s1 \<Rightarrow> (Inr (loc\<lparr>reasoningMessage := reasoningMessage loc @ t\<rparr>), s1))
      | UsageChunk i out cw cr cost \<Rightarrow>
          (Inr (loc\<lparr>inputTokens := inputTokens loc + i,
                    outputTokens := outputTokens loc + out,
                    cacheWriteTokens := cacheWriteTokens loc + (case cw of None \<Rightarrow> 0 | Some n \<Rightarrow> n),
                    cacheReadTokens := cacheReadTokens loc + (case cr of None \<Rightarrow> 0 | Some n \<Rightarrow> n),
                    totalCost := cost\<rparr>), s)
      | TextChunk t \<Rightarrow> (Inr (loc\<lparr>assistantMessage := assistantMessage loc @ t\<rparr>), st_present e s)
      | UndefinedChunk \<Rightarrow> (Inr loc, s))"

datatype StreamEnd = StreamDone | StreamBroken | StreamThrew string

text \<open>
  The \<^verbatim>\<open>for await\<close> loop over the stream, from iteration \<open>i\<close> on. It ends when the stream
  does, at a \<^verbatim>\<open>break\<close>, or with the message of an error thrown by the stream or by a call
  inside the loop.
\<close>

fun readStream ::
  "nat \<Rightarrow> (nat \<Rightarrow> StepEnv) \<Rightarrow> nat \<Rightarrow> StreamItem list \<Rightarrow> StreamLocals \<Rightarrow> Task \<Rightarrow>
   StreamEnd \<times> StreamLocals \<times> Task" where
  "readStream lastApiReqIndex env i [] loc s = (StreamDone, loc, s)"
| "readStream lastApiReqIndex env i (item # items) loc s0 =
     (let s = st_meanwhile (env i) s0 in
      case item of
        Throw msg \<Rightarrow> (StreamThrew msg, loc, s)
      | Yield chunk \<Rightarrow>
          if chunk = UndefinedChunk then readStream lastApiReqIndex env (Suc i) items loc s
          else
            (case processChunk chunk (env i) loc s of
               (Inl e, s1) \<Rightarrow> (StreamThrew (errorMessage e), loc, s1)
             | (Inr loc1, s1) \<Rightarrow>
                 if abort s1 then
                   (if \<not> abandoned s1 then
                      (case abortStream lastApiReqIndex loc1 user_cancelled (st_info (env i))
                              (st_now (env i)) s1 of
                         (Some e, s2) \<Rightarrow> (StreamThrew (errorMessage e), loc1, s2)
                       | (None, s2) \<Rightarrow> (StreamBroken, loc1, s2))
                    else (StreamBroken, loc1, s1))
                 else if didRejectTool s1 then
                   (StreamBroken,
                    loc1\<lparr>assistantMessage := assistantMessage loc1 @ [CHR 0x0A, CHR 0x0A] @
                            ''[Response interrupted by user feedback]''\<rparr>, s1)
                 else if didAlreadyUseTool s1 then
                   (StreamBroken,
                    loc1\<lparr>assistantMessage := assistantMessage loc1 @ [CHR 0x0A, CHR 0x0A] @
                            ''[Response interrupted by a tool use result. Only one tool may be used at a time and should be placed at the end of the message.]''\<rparr>,
                    s1)
                 else readStream lastApiReqIndex env (Suc i) items loc1 s1))"

text \<open>
  The \<^verbatim>\<open>catch\<close> and \<^verbatim>\<open>finally\<close> blocks of the loop and the abort check after them.
  \<^verbatim>\<open>abortTask\<close> is called without being awaited and is taken to have run when
  \<^verbatim>\<open>abortStream\<close> starts. \<open>historyFound\<close>: the provider finds the task's history item.
  An error thrown inside the handler leaves the iteration like any other.
\<close>

definition afterStream ::
  "StreamEnd \<Rightarrow> StreamLocals \<Rightarrow> nat \<Rightarrow> string \<Rightarrow> bool \<Rightarrow> nat \<Rightarrow> Task \<Rightarrow> (error + StreamLocals) \<times> Task" where
  "afterStream ending loc lastApiReqIndex info historyFound now s =
     (case (case ending of
              StreamThrew msg \<Rightarrow>
                if \<not> abandoned s then
                  (case abortStream lastApiReqIndex loc streaming_failed info now (abortTask False s) of
                     (Some e, s1) \<Rightarrow> (Some e, s1)
                   | (None, s1) \<Rightarrow>
                       (None, if historyFound then viaProvider InitClineWithHistoryItem s1 else s1))
                else (None, s)
            | StreamDone \<Rightarrow> (None, s)
            | StreamBroken \<Rightarrow> (None, s)) of
        (Some e, s2) \<Rightarrow> (Inl e, s2\<lparr>isStreaming := False\<rparr>)
      | (None, s2) \<Rightarrow>
          if abort s2 \<or> abandoned s2 then (Inl TaskAborted, s2\<lparr>isStreaming := False\<rparr>)
          else (Inr loc, s2\<lparr>isStreaming := False\<rparr>))"

definition noLocals :: StreamLocals where
  "noLocals = \<lparr>assistantMessage = [], reasoningMessage = [], inputTokens = 0, outputTokens = 0,
               cacheWriteTokens = 0, cacheReadTokens = 0, totalCost = None\<rparr>"

text \<open>
  One request of the loop, from the reset of the streaming state to the abort check: the
  generator runs inside the loop, so an error it throws reaches the same handler.
  \<open>env k\<close>, with \<open>k\<close> the number of stream items, is the environment of the handler.
\<close>

definition streamRequest ::
  "nat \<Rightarrow> bool \<Rightarrow> Attempt list \<Rightarrow> (nat \<Rightarrow> StepEnv) \<Rightarrow> Task \<Rightarrow> ((error + StreamLocals) \<times> Task) option" where
  "streamRequest lastApiReqIndex historyFound attempts env s =
     (case attemptApiRequest 0 attempts
             (s\<lparr>didRejectTool := False, didAlreadyUseTool := False, isStreaming := True\<rparr>) of
        None \<Rightarrow> None
      | Some (Inl e, s1) \<Rightarrow>
          Some (afterStream (StreamThrew (errorMessage e)) noLocals lastApiReqIndex
                  (st_info (env 0)) historyFound (st_now (env 0)) s1)
      | Some (Inr items, s1) \<Rightarrow>
          (case readStream lastApiReqIndex env 0 items noLocals s1 of
             (ending, loc, s2) \<Rightarrow>
               Some (afterStream ending loc lastApiReqIndex (st_info (env (length items)))
                       historyFound (st_now (env (length items))) s2)))"


section \<open>Properties of the conversation store\<close>

lemma saveApiConversationHistory_fails:
  "saveApiMessagesFails s \<Longrightarrow>
   saveApiConversationHistory s = emit (ConsoleError ''Failed to save API conversation history:'') s"
  by (simp add: saveApiConversationHistory_def saveApiMessages_def)

lemma saveClineMessages_fails:
  "saveTaskMessagesFails s \<Longrightarrow>
   saveClineMessages s = emit (ConsoleError ''Failed to save Costrict messages:'') s"
  by (simp add: saveClineMessages_def saveTaskMessages_def)

lemma saveApiConversationHistory_only_events:
  "saveApiConversationHistory s = s\<lparr>events := events (saveApiConversationHistory s)\<rparr>"
  by (simp add: saveApiConversationHistory_def saveApiMessages_def emit_def)

lemma saveClineMessages_only_events:
  "saveClineMessages s = s\<lparr>events := events (saveClineMessages s)\<rparr>"
  by (simp add: saveClineMessages_def saveTaskMessages_def taskMetadata_def emit_def viaProvider_def)

lemma say_returns: "\<not> abort s \<Longrightarrow>
   \<exists>s'. say ty txt images partial checkpoint progressStatus nonInt cc now s = Inr s'"
  by (simp add: say_def Let_def split: option.split bool.split)

text \<open>
  Claim C5. When a persistence save of either log fails, the error is caught and logged and
  does not reach the caller: the operations that mutate a log and then save it still return
  normally, the mutation is kept, and apart from the trace the task is the one a working
  persistence layer would have left.
\<close>

theorem save_failure_is_swallowed:
  "(saveApiMessagesFails s \<longrightarrow>
      addToApiConversationHistory r c now s =
        s\<lparr>apiConversationHistory :=
             apiConversationHistory s @ [\<lparr>a_role = r, a_content = c, a_ts = now\<rparr>],
          events := events s @ [ConsoleError ''Failed to save API conversation history:'']\<rparr> \<and>
      overwriteApiConversationHistory h s =
        s\<lparr>apiConversationHistory := h,
          events := events s @ [ConsoleError ''Failed to save API conversation history:'']\<rparr>) \<and>
   (saveTaskMessagesFails s \<longrightarrow>
      clineMessages (addToClineMessages m s) = clineMessages s @ [m] \<and>
      last (events (addToClineMessages m s)) = ConsoleError ''Failed to save Costrict messages:'' \<and>
      overwriteClineMessages ms s =
        s\<lparr>clineMessages := ms,
          events := events s @ [ConsoleError ''Failed to save Costrict messages:'']\<rparr> \<and>
      (\<not> abort s \<longrightarrow>
         (\<exists>s'. say ty txt images partial checkpoint progressStatus nonInt cc now s = Inr s'))) \<and>
   (addToApiConversationHistory r c now s)\<lparr>events := ev\<rparr> =
     (addToApiConversationHistory r c now (s\<lparr>saveApiMessagesFails := False\<rparr>))
       \<lparr>saveApiMessagesFails := saveApiMessagesFails s, events := ev\<rparr> \<and>
   (addToClineMessages m s)\<lparr>events := ev\<rparr> =
     (addToClineMessages m (s\<lparr>saveTaskMessagesFails := False, taskMetadataFails := False\<rparr>))
       \<lparr>saveTaskMessagesFails := saveTaskMessagesFails s,
        taskMetadataFails := taskMetadataFails s, events := ev\<rparr>"
proof -
  have api: "saveApiMessagesFails s \<Longrightarrow>
      addToApiConversationHistory r c now s =
        s\<lparr>apiConversationHistory :=
             apiConversationHistory s @ [\<lparr>a_role = r, a_content = c, a_ts = now\<rparr>],
          events := events s @ [ConsoleError ''Failed to save API conversation history:'']\<rparr> \<and>
      overwriteApiConversationHistory h s =
        s\<lparr>apiConversationHistory := h,
          events := events s @ [ConsoleError ''Failed to save API conversation history:'']\<rparr>"
    by (simp add: addToApiConversationHistory_def overwriteApiConversationHistory_def
        saveApiConversationHistory_fails emit_def)
  have cl1: "saveTaskMessagesFails s \<Longrightarrow>
      clineMessages (addToClineMessages m s) = clineMessages s @ [m] \<and>
      last (events (addToClineMessages m s)) = ConsoleError ''Failed to save Costrict messages:''"
    by (simp add: addToClineMessages_def saveClineMessages_fails emit_def viaProvider_def)
  have cl2: "saveTaskMessagesFails s \<Longrightarrow>
      overwriteClineMessages ms s =
        s\<lparr>clineMessages := ms,
          events := events s @ [ConsoleError ''Failed to save Costrict messages:'']\<rparr>"
    by (simp add: overwriteClineMessages_def saveClineMessages_fails emit_def)
  have asif1: "(addToApiConversationHistory r c now s)\<lparr>events := ev\<rparr> =
     (addToApiConversationHistory r c now (s\<lparr>saveApiMessagesFails := False\<rparr>))
       \<lparr>saveApiMessagesFails := saveApiMessagesFails s, events := ev\<rparr>"
    by (simp add: addToApiConversationHistory_def saveApiConversationHistory_def
        saveApiMessages_def emit_def)
  have asif2: "(addToClineMessages m s)\<lparr>events := ev\<rparr> =
     (addToClineMessages m (s\<lparr>saveTaskMessagesFails := False, taskMetadataFails := False\<rparr>))
       \<lparr>saveTaskMessagesFails := saveTaskMessagesFails s,
        taskMetadataFails := taskMetadataFails s, events := ev\<rparr>"
    by (simp add: addToClineMessages_def saveClineMessages_def saveTaskMessages_def
        taskMetadata_def emit_def viaProvider_def)
  show ?thesis
    using api cl1 cl2 asif1 asif2 say_returns [of s] by blast
qed

theorem save_failure_is_swallowed_witness:
  "saveApiMessagesFails (newTask\<lparr>saveApiMessagesFails := True, saveTaskMessagesFails := True\<rparr>) \<and>
   saveTaskMessagesFails (newTask\<lparr>saveApiMessagesFails := True, saveTaskMessagesFails := True\<rparr>) \<and>
   \<not> abort (newTask\<lparr>saveApiMessagesFails := True, saveTaskMessagesFails := True\<rparr>) \<and>
   apiConversationHistory
     (addToApiConversationHistory RoleUser [TextBlock ''hi''] 7
        (newTask\<lparr>saveApiMessagesFails := True, saveTaskMessagesFails := True\<rparr>)) =
     [\<lparr>a_role = RoleUser, a_content = [TextBlock ''hi''], a_ts = 7\<rparr>] \<and>
   clineMessages
     (addToClineMessages (newMessage 7 TypeSay)
        (newTask\<lparr>saveApiMessagesFails := True, saveTaskMessagesFails := True\<rparr>)) =
     [newMessage 7 TypeSay] \<and>
   (\<exists>s'. say ''text'' (Some ''hi'') None None None None False None 7
           (newTask\<lparr>saveApiMessagesFails := True, saveTaskMessagesFails := True\<rparr>) = Inr s')"
  using save_failure_is_swallowed
    [of "newTask\<lparr>saveApiMessagesFails := True, saveTaskMessagesFails := True\<rparr>"
        RoleUser "[TextBlock ''hi'']" 7 "[]" "newMessage 7 TypeSay" "[]" "''text''" "Some ''hi''"
        None None None None False None "[]"]
  by (simp add: newTask_def)

section \<open>What the operations leave unchanged, and resuming a paused task\<close>

lemma emit_fields [simp]:
  "abort (emit e s) = abort s" "abandoned (emit e s) = abandoned s"
  "isPaused (emit e s) = isPaused s" "pauseInterval (emit e s) = pauseInterval s"
  "apiConversationHistory (emit e s) = apiConversationHistory s"
  "clineMessages (emit e s) = clineMessages s"
  "askResponse (emit e s) = askResponse s" "askResponseText (emit e s) = askResponseText s"
  "askResponseImages (emit e s) = askResponseImages s"
  "lastMessageTs (emit e s) = lastMessageTs s"
  "consecutiveMistakeCount (emit e s) = consecutiveMistakeCount s"
  "consecutiveMistakeLimit (emit e s) = consecutiveMistakeLimit s"
  "isStreaming (emit e s) = isStreaming s" "diffViewIsEditing (emit e s) = diffViewIsEditing s"
  "didFinishAbortingStream (emit e s) = didFinishAbortingStream s"
  "intervals (emit e s) = intervals s" "nextHandle (emit e s) = nextHandle s"
  "resolved (emit e s) = resolved s" "providerAlive (emit e s) = providerAlive s"
  "saveApiMessagesFails (emit e s) = saveApiMessagesFails s"
  "saveTaskMessagesFails (emit e s) = saveTaskMessagesFails s"
  "taskMetadataFails (emit e s) = taskMetadataFails s"
  "events (emit e s) = events s @ [e]"
  by (simp_all add: emit_def)

lemma viaProvider_fields [simp]:
  "abort (viaProvider e s) = abort s" "abandoned (viaProvider e s) = abandoned s"
  "isPaused (viaProvider e s) = isPaused s" "pauseInterval (viaProvider e s) = pauseInterval s"
  "apiConversationHistory (viaProvider e s) = apiConversationHistory s"
  "clineMessages (viaProvider e s) = clineMessages s"
  "askResponse (viaProvider e s) = askResponse s" "askResponseText (viaProvider e s) = askResponseText s"
  "askResponseImages (viaProvider e s) = askResponseImages s"
  "lastMessageTs (viaProvider e s) = lastMessageTs s"
  "consecutiveMistakeCount (viaProvider e s) = consecutiveMistakeCount s"
  "consecutiveMistakeLimit (viaProvider e s) = consecutiveMistakeLimit s"
  "isStreaming (viaProvider e s) = isStreaming s" "diffViewIsEditing (viaProvider e s) = diffViewIsEditing s"
  "didFinishAbortingStream (viaProvider e s) = didFinishAbortingStream s"
  "intervals (viaProvider e s) = intervals s" "nextHandle (viaProvider e s) = nextHandle s"
  "resolved (viaProvider e s) = resolved s" "providerAlive (viaProvider e s) = providerAlive s"
  "saveApiMessagesFails (viaProvider e s) = saveApiMessagesFails s"
  "saveTaskMessagesFails (viaProvider e s) = saveTaskMessagesFails s"
  "taskMetadataFails (viaProvider e s) = taskMetadataFails s"
  by (simp_all add: viaProvider_def)

lemma saveClineMessages_fields [simp]:
  "abort (saveClineMessages s) = abort s" "abandoned (saveClineMessages s) = abandoned s"
  "isPaused (saveClineMessages s) = isPaused s" "pauseInterval (saveClineMessages s) = pauseInterval s"
  "apiConversationHistory (saveClineMessages s) = apiConversationHistory s"
  "clineMessages (saveClineMessages s) = clineMessages s"
  "askResponse (saveClineMessages s) = askResponse s" "askResponseText (saveClineMessages s) = askResponseText s"
  "askResponseImages (saveClineMessages s) = askResponseImages s"
  "lastMessageTs (saveClineMessages s) = lastMessageTs s"
  "consecutiveMistakeCount (saveClineMessages s) = consecutiveMistakeCount s"
  "consecutiveMistakeLimit (saveClineMessages s) = consecutiveMistakeLimit s"
  "isStreaming (saveClineMessages s) = isStreaming s" "diffViewIsEditing (saveClineMessages s) = diffViewIsEditing s"
  "didFinishAbortingStream (saveClineMessages s) = didFinishAbortingStream s"
  "intervals (saveClineMessages s) = intervals s" "nextHandle (saveClineMessages s) = nextHandle s"
  "resolved (saveClineMessages s) = resolved s" "providerAlive (saveClineMessages s) = providerAlive s"
  "saveApiMessagesFails (saveClineMessages s) = saveApiMessagesFails s"
  "saveTaskMessagesFails (saveClineMessages s) = saveTaskMessagesFails s"
  "taskMetadataFails (saveClineMessages s) = taskMetadataFails s"
  by (subst saveClineMessages_only_events, simp)+

lemma saveApiConversationHistory_fields [simp]:
  "abort (saveApiConversationHistory s) = abort s" "abandoned (saveApiConversationHistory s) = abandoned s"
  "isPaused (saveApiConversationHistory s) = isPaused s" "pauseInterval (saveApiConversationHistory s) = pauseInterval s"
  "apiConversationHistory (saveApiConversationHistory s) = apiConversationHistory s"
  "clineMessages (saveApiConversationHistory s) = clineMessages s"
  "askResponse (saveApiConversationHistory s) = askResponse s" "askResponseText (saveApiConversationHistory s) = askResponseText s"
  "askResponseImages (saveApiConversationHistory s) = askResponseImages s"
  "lastMessageTs (saveApiConversationHistory s) = lastMessageTs s"
  "consecutiveMistakeCount (saveApiConversationHistory s) = consecutiveMistakeCount s"
  "consecutiveMistakeLimit (saveApiConversationHistory s) = consecutiveMistakeLimit s"
  "isStreaming (saveApiConversationHistory s) = isStreaming s" "diffViewIsEditing (saveApiConversationHistory s) = diffViewIsEditing s"
  "didFinishAbortingStream (saveApiConversationHistory s) = didFinishAbortingStream s"
  "intervals (saveApiConversationHistory s) = intervals s" "nextHandle (saveApiConversationHistory s) = nextHandle s"
  "resolved (saveApiConversationHistory s) = resolved s" "providerAlive (saveApiConversationHistory s) = providerAlive s"
  "saveApiMessagesFails (saveApiConversationHistory s) = saveApiMessagesFails s"
  "saveTaskMessagesFails (saveApiConversationHistory s) = saveTaskMessagesFails s"
  "taskMetadataFails (saveApiConversationHistory s) = taskMetadataFails s"
  by (subst saveApiConversationHistory_only_events, simp)+

lemma addToClineMessages_fields [simp]:
  "abort (addToClineMessages m s) = abort s" "abandoned (addToClineMessages m s) = abandoned s"
  "isPaused (addToClineMessages m s) = isPaused s" "pauseInterval (addToClineMessages m s) = pauseInterval s"
  "apiConversationHistory (addToClineMessages m s) = apiConversationHistory s"
  "clineMessages (addToClineMessages m s) = clineMessages s @ [m]"
  "askResponse (addToClineMessages m s) = askResponse s" "askResponseText (addToClineMessages m s) = askResponseText s"
  "askResponseImages (addToClineMessages m s) = askResponseImages s"
  "lastMessageTs (addToClineMessages m s) = lastMessageTs s"
  "consecutiveMistakeCount (addToClineMessages m s) = consecutiveMistakeCount s"
  "consecutiveMistakeLimit (addToClineMessages m s) = consecutiveMistakeLimit s"
  "isStreaming (addToClineMessages m s) = isStreaming s" "diffViewIsEditing (addToClineMessages m s) = diffViewIsEditing s"
  "didFinishAbortingStream (addToClineMessages m s) = didFinishAbortingStream s"
  "intervals (addToClineMessages m s) = intervals s" "nextHandle (addToClineMessages m s) = nextHandle s"
  "resolved (addToClineMessages m s) = resolved s" "providerAlive (addToClineMessages m s) = providerAlive s"
  "saveApiMessagesFails (addToClineMessages m s) = saveApiMessagesFails s"
  "saveTaskMessagesFails (addToClineMessages m s) = saveTaskMessagesFails s"
  "taskMetadataFails (addToClineMessages m s) = taskMetadataFails s"
  by (simp_all add: addToClineMessages_def)

lemma updateClineMessage_fields [simp]:
  "abort (updateClineMessage m s) = abort s" "abandoned (updateClineMessage m s) = abandoned s"
  "isPaused (updateClineMessage m s) = isPaused s" "pauseInterval (updateClineMessage m s) = pauseInterval s"
  "apiConversationHistory (updateClineMessage m s) = apiConversationHistory s"
  "clineMessages (updateClineMessage m s) = clineMessages s"
  "askResponse (updateClineMessage m s) = askResponse s" "askResponseText (updateClineMessage m s) = askResponseText s"
  "askResponseImages (updateClineMessage m s) = askResponseImages s"
  "lastMessageTs (updateClineMessage m s) = lastMessageTs s"
  "consecutiveMistakeCount (updateClineMessage m s) = consecutiveMistakeCount s"
  "consecutiveMistakeLimit (updateClineMessage m s) = consecutiveMistakeLimit s"
  "isStreaming (updateClineMessage m s) = isStreaming s" "diffViewIsEditing (updateClineMessage m s) = diffViewIsEditing s"
  "didFinishAbortingStream (updateClineMessage m s) = didFinishAbortingStream s"
  "intervals (updateClineMessage m s) = intervals s" "nextHandle (updateClineMessage m s) = nextHandle s"
  "resolved (updateClineMessage m s) = resolved s" "providerAlive (updateClineMessage m s) = providerAlive s"
  "saveApiMessagesFails (updateClineMessage m s) = saveApiMessagesFails s"
  "saveTaskMessagesFails (updateClineMessage m s) = saveTaskMessagesFails s"
  "taskMetadataFails (updateClineMessage m s) = taskMetadataFails s"
  by (simp_all add: updateClineMessage_def)

lemma addToApiConversationHistory_fields [simp]:
  "abort (addToApiConversationHistory r c n s) = abort s" "abandoned (addToApiConversationHistory r c n s) = abandoned s"
  "isPaused (addToApiConversationHistory r c n s) = isPaused s" "pauseInterval (addToApiConversationHistory r c n s) = pauseInterval s"
  "apiConversationHistory (addToApiConversationHistory r c n s) =
     apiConversationHistory s @ [\<lparr>a_role = r, a_content = c, a_ts = n\<rparr>]"
  "clineMessages (addToApiConversationHistory r c n s) = clineMessages s"
  "askResponse (addToApiConversationHistory r c n s) = askResponse s"
  "lastMessageTs (addToApiConversationHistory r c n s) = lastMessageTs s"
  "consecutiveMistakeCount (addToApiConversationHistory r c n s) = consecutiveMistakeCount s"
  "consecutiveMistakeLimit (addToApiConversationHistory r c n s) = consecutiveMistakeLimit s"
  "isStreaming (addToApiConversationHistory r c n s) = isStreaming s"
  "intervals (addToApiConversationHistory r c n s) = intervals s" "nextHandle (addToApiConversationHistory r c n s) = nextHandle s"
  "resolved (addToApiConversationHistory r c n s) = resolved s" "providerAlive (addToApiConversationHistory r c n s) = providerAlive s"
  "saveTaskMessagesFails (addToApiConversationHistory r c n s) = saveTaskMessagesFails s"
  "taskMetadataFails (addToApiConversationHistory r c n s) = taskMetadataFails s"
  by (simp_all add: addToApiConversationHistory_def)

text \<open>What say leaves alone.\<close>

lemma say_frame:
  assumes "say ty txt images partial checkpoint progressStatus nonInt cc now s = Inr s'"
  shows "abort s' = abort s" "abandoned s' = abandoned s" "isPaused s' = isPaused s"
    "pauseInterval s' = pauseInterval s" "apiConversationHistory s' = apiConversationHistory s"
    "askResponse s' = askResponse s" "askResponseText s' = askResponseText s"
    "askResponseImages s' = askResponseImages s"
    "consecutiveMistakeCount s' = consecutiveMistakeCount s"
    "consecutiveMistakeLimit s' = consecutiveMistakeLimit s"
    "intervals s' = intervals s" "nextHandle s' = nextHandle s" "resolved s' = resolved s"
    "providerAlive s' = providerAlive s" "saveTaskMessagesFails s' = saveTaskMessagesFails s"
    "taskMetadataFails s' = taskMetadataFails s" "isStreaming s' = isStreaming s"
  using assms
  by (auto simp add: say_def Let_def setLastMessageTs_def split: if_splits option.splits bool.splits)

lemma say_atomic:
  "\<not> abort s \<Longrightarrow>
   say ty txt images None checkpoint progressStatus nonInt cc now s =
     Inr (addToClineMessages
            ((newMessage now TypeSay)\<lparr>m_say := Some ty, m_text := txt, m_images := images,
               m_checkpoint := checkpoint, m_contextCondense := cc\<rparr>)
            (setLastMessageTs nonInt now s))"
  by (simp add: say_def)

lemma setLastMessageTs_fields [simp]:
  "abort (setLastMessageTs b t s) = abort s" "isPaused (setLastMessageTs b t s) = isPaused s"
  "clineMessages (setLastMessageTs b t s) = clineMessages s"
  "apiConversationHistory (setLastMessageTs b t s) = apiConversationHistory s"
  "intervals (setLastMessageTs b t s) = intervals s"
  "pauseInterval (setLastMessageTs b t s) = pauseInterval s"
  "resolved (setLastMessageTs b t s) = resolved s"
  "askResponse (setLastMessageTs b t s) = askResponse s"
  "consecutiveMistakeCount (setLastMessageTs b t s) = consecutiveMistakeCount s"
  "events (setLastMessageTs b t s) = events s"
  by (simp_all add: setLastMessageTs_def)

text \<open>
  Claim C6. Resuming a paused parent task (one that has not been aborted) with the child's
  result text \<open>R\<close> clears the paused flag, appends a \<^verbatim>\<open>subtask_result\<close> display
  message whose text is \<open>R\<close>, and appends to the model-facing history a user message
  whose only block is the text \<^verbatim>\<open>[new_task completed] Result: R\<close>. The parent's loop can
  then continue: the next tick of any live pause timer resolves its wait.
\<close>

theorem resumePausedTask_folds_result_in:
  assumes "\<not> abort s" and "isPaused s"
  shows "\<exists>s'. resumePausedTask R now1 now2 s = (Inr (), s') \<and>
           \<not> isPaused s' \<and>
           clineMessages s' = clineMessages s @
             [(newMessage now1 TypeSay)\<lparr>m_say := Some ''subtask_result'', m_text := Some R\<rparr>] \<and>
           apiConversationHistory s' = apiConversationHistory s @
             [\<lparr>a_role = RoleUser,
               a_content = [TextBlock (''[new_task completed] Result: '' @ R)],
               a_ts = now2\<rparr>] \<and>
           (\<forall>h \<in> intervals s. h \<in> resolved (intervalTick h s'))"
  using assms
  by (simp add: resumePausedTask_def Let_def say_atomic intervalTick_def newMessage_def)

theorem resumePausedTask_folds_result_in_witness:
  "\<not> abort (snd (waitForResume (newTask\<lparr>isPaused := True\<rparr>))) \<and>
   isPaused (snd (waitForResume (newTask\<lparr>isPaused := True\<rparr>))) \<and>
   0 \<in> intervals (snd (waitForResume (newTask\<lparr>isPaused := True\<rparr>))) \<and>
   (\<exists>s'. resumePausedTask ''R'' 10 11 (snd (waitForResume (newTask\<lparr>isPaused := True\<rparr>))) =
            (Inr (), s') \<and>
         \<not> isPaused s' \<and>
         map m_text (clineMessages s') = [Some ''R''] \<and>
         map a_content (apiConversationHistory s') =
           [[TextBlock ''[new_task completed] Result: R'']] \<and>
         0 \<in> resolved (intervalTick 0 s'))"
  using resumePausedTask_folds_result_in
    [of "snd (waitForResume (newTask\<lparr>isPaused := True\<rparr>))" "''R''" 10 11]
  by (auto simp add: newTask_def waitForResume_def)

section \<open>Abort and the pause wait\<close>

lemma clearInterval_fields [simp]:
  "intervals (clearInterval h s) = (case h of None \<Rightarrow> intervals s | Some i \<Rightarrow> intervals s - {i})"
  "nextHandle (clearInterval h s) = nextHandle s" "resolved (clearInterval h s) = resolved s"
  "isPaused (clearInterval h s) = isPaused s" "abort (clearInterval h s) = abort s"
  "abandoned (clearInterval h s) = abandoned s"
  "events (clearInterval h s) = events s"
  "clineMessages (clearInterval h s) = clineMessages s"
  "apiConversationHistory (clearInterval h s) = apiConversationHistory s"
  "isStreaming (clearInterval h s) = isStreaming s"
  "diffViewIsEditing (clearInterval h s) = diffViewIsEditing s"
  by (simp_all add: clearInterval_def split: option.split)

lemma abortTask_timers:
  "pauseInterval (abortTask b s) = None"
  "intervals (abortTask b s) =
     (case pauseInterval s of None \<Rightarrow> intervals s | Some i \<Rightarrow> intervals s - {i})"
  "nextHandle (abortTask b s) = nextHandle s"
  "resolved (abortTask b s) = resolved s"
  "abort (abortTask b s)"
  by (simp_all add: abortTask_def Let_def split: option.split)

lemma resumePausedTask_timers:
  "intervals (snd (resumePausedTask R n1 n2 s)) = intervals s"
  "nextHandle (snd (resumePausedTask R n1 n2 s)) = nextHandle s"
  "resolved (snd (resumePausedTask R n1 n2 s)) = resolved s"
  by (auto simp add: resumePausedTask_def Let_def split: sum.split dest: say_frame)

lemma perform_keeps_cancelled:
  assumes "h \<notin> intervals t" and "h < nextHandle t" and "h \<notin> resolved t"
  shows "h \<notin> intervals (perform a t) \<and> h < nextHandle (perform a t) \<and> h \<notin> resolved (perform a t)"
proof (cases a)
  case (Tick k)
  with assms show ?thesis by (auto simp add: intervalTick_def split: option.splits)
next
  case Pause
  with assms show ?thesis by simp
next
  case (Resume R n1 n2)
  with assms show ?thesis by (simp add: resumePausedTask_timers)
next
  case (Abort b)
  with assms show ?thesis by (auto simp add: abortTask_timers split: option.splits)
next
  case StartWait
  with assms show ?thesis by (auto simp add: waitForResume_def)
next
  case (WebviewAskResponse r t1 i1)
  with assms show ?thesis by (simp add: handleWebviewAskResponse_def)
qed

lemma performAll_keeps_cancelled:
  "h \<notin> intervals t \<Longrightarrow> h < nextHandle t \<Longrightarrow> h \<notin> resolved t \<Longrightarrow>
   h \<notin> resolved (performAll acts t)"
proof (induction acts arbitrary: t)
  case Nil
  then show ?case by simp
next
  case (Cons a acts)
  from perform_keeps_cancelled [OF Cons.prems, of a] Cons.IH [of "perform a t"]
  show ?case by simp
qed

text \<open>
  Claim C10. If \<^verbatim>\<open>abortTask\<close> runs while a pause wait is pending (its timer, a handle
  the runtime has handed out, is the one recorded in \<open>pauseInterval\<close>), the timer is cleared and the handle set to
  undefined, so no timer of the wait stays live; and whatever happens to the task afterwards
  (the paused flag cleared by a resume, timer ticks, new waits, further aborts), the promise
  of that wait is never resolved.
\<close>

theorem abort_cancels_pending_pause_wait:
  assumes "pauseInterval s = Some h" and "h < nextHandle s" and "h \<notin> resolved s"
  shows "pauseInterval (abortTask isAbandoned s) = None \<and>
         intervals (abortTask isAbandoned s) = intervals s - {h} \<and>
         h \<notin> resolved (performAll acts (abortTask isAbandoned s))"
proof -
  have "h \<notin> intervals (abortTask isAbandoned s)"
    using assms by (simp add: abortTask_timers)
  moreover have "h < nextHandle (abortTask isAbandoned s)"
    using assms by (simp add: abortTask_timers)
  moreover have "h \<notin> resolved (abortTask isAbandoned s)"
    using assms by (simp add: abortTask_timers)
  ultimately have "h \<notin> resolved (performAll acts (abortTask isAbandoned s))"
    by (rule performAll_keeps_cancelled)
  then show ?thesis
    using assms by (simp add: abortTask_timers)
qed

theorem abort_cancels_pending_pause_wait_witness:
  "pauseInterval (snd (waitForResume (newTask\<lparr>isPaused := True\<rparr>))) = Some 0 \<and>
   0 < nextHandle (snd (waitForResume (newTask\<lparr>isPaused := True\<rparr>))) \<and>
   0 \<notin> resolved (snd (waitForResume (newTask\<lparr>isPaused := True\<rparr>))) \<and>
   intervals (abortTask False (snd (waitForResume (newTask\<lparr>isPaused := True\<rparr>)))) = {} \<and>
   0 \<notin> resolved (performAll [Resume ''R'' 10 11, Tick 0, Tick 0]
                   (abortTask False (snd (waitForResume (newTask\<lparr>isPaused := True\<rparr>))))) \<and>
   0 \<in> resolved (performAll [Resume ''R'' 10 11, Tick 0]
                   (snd (waitForResume (newTask\<lparr>isPaused := True\<rparr>))))"
proof -
  let ?s = "snd (waitForResume (newTask\<lparr>isPaused := True\<rparr>))"
  have a: "pauseInterval ?s = Some 0" "0 < nextHandle ?s" "0 \<notin> resolved ?s" "intervals ?s = {0}"
    by (simp_all add: waitForResume_def newTask_def)
  have b: "0 \<in> resolved (performAll [Resume ''R'' 10 11, Tick 0] ?s)"
    using a by (simp add: intervalTick_def resumePausedTask_timers resumePausedTask_def Let_def
        say_atomic newTask_def waitForResume_def)
  from abort_cancels_pending_pause_wait [OF a(1) a(2) a(3), of False "[Resume ''R'' 10 11, Tick 0, Tick 0]"]
  show ?thesis using a b by simp
qed

section \<open>Waiting for the operator's answer\<close>

lemma clearAskResponse_fields [simp]:
  "askResponse (clearAskResponse s) = None" "askResponseText (clearAskResponse s) = None"
  "askResponseImages (clearAskResponse s) = None"
  "abort (clearAskResponse s) = abort s" "clineMessages (clearAskResponse s) = clineMessages s"
  "lastMessageTs (clearAskResponse s) = lastMessageTs s" "events (clearAskResponse s) = events s"
  "apiConversationHistory (clearAskResponse s) = apiConversationHistory s"
  "consecutiveMistakeCount (clearAskResponse s) = consecutiveMistakeCount s"
  "consecutiveMistakeLimit (clearAskResponse s) = consecutiveMistakeLimit s"
  by (simp_all add: clearAskResponse_def)

lemma pWaitFor_find: "pWaitFor cond script s = find cond (checks script s)"
  by (induction script arbitrary: s) simp_all

lemma ask_begin_partial_raises:
  "\<exists>e s'. ask_begin ty tx (Some True) pr now s = (Inl e, s')"
  by (simp add: ask_begin_def Let_def)

lemma ask_partial_raises:
  "\<exists>e s'. ask ty tx (Some True) pr now script s = Some (Inl e, s')"
  using ask_begin_partial_raises [of ty tx pr now s] by (auto simp add: ask_def)

lemma ask_begin_waits:
  assumes "\<not> abort s" and "p \<noteq> Some True"
  shows "\<exists>askTs s1. ask_begin ty tx p pr now s = (Inr askTs, s1) \<and> lastMessageTs s1 = Some askTs \<and>
           askResponse s1 = None \<and> askResponseText s1 = None \<and> askResponseImages s1 = None"
proof (cases p)
  case None
  with assms show ?thesis by (simp add: ask_begin_def)
next
  case (Some b)
  with assms have "p = Some False" by simp
  with assms show ?thesis by (simp add: ask_begin_def Let_def)
qed

lemma ask_begin_atomic:
  "\<not> abort s \<Longrightarrow>
   ask_begin ty tx None pr now s =
     (Inr now, addToClineMessages ((newMessage now TypeAsk)\<lparr>m_ask := Some ty, m_text := tx\<rparr>)
                 ((clearAskResponse s)\<lparr>lastMessageTs := Some now\<rparr>))"
  by (simp add: ask_begin_def)

text \<open>
  Claim C4. An atomic ask (partial undefined) on a live task publishes its message with an
  empty response slot and its own timestamp as the last-message timestamp, and then polls:
  the successive checks of the wait (one per polling interval, 100 ms in the source) see the
  states \<open>checks script s1\<close>. The caller stays blocked as long as every check finds no
  response and the last-message timestamp unchanged. At the first check where that fails,
  the ask raises the ask-superseded error if the timestamp is no longer its own (also when a
  response is present), and otherwise returns the stored response. An ask with partial=true
  never returns a response: it always raises.
\<close>

theorem atomic_ask_blocks_until_answered_or_superseded:
  assumes "\<not> abort s"
  shows "let s1 = snd (ask_begin ty tx None pr now s);
             woke = find (askWaitCondition now) (checks script s1);
             result = ask ty tx None pr now script s
         in askResponse s1 = None \<and> lastMessageTs s1 = Some now \<and>
            (woke = None \<longleftrightarrow>
               (\<forall>t \<in> set (checks script s1). askResponse t = None \<and> lastMessageTs t = Some now)) \<and>
            (woke = None \<longrightarrow> result = None) \<and>
            (\<forall>t. woke = Some t \<and> lastMessageTs t \<noteq> Some now \<longrightarrow>
                   result = Some (Inl AskIgnored, t)) \<and>
            (\<forall>t. woke = Some t \<and> lastMessageTs t = Some now \<longrightarrow>
                   askResponse t \<noteq> None \<and>
                   result = Some (Inr \<lparr>response = askResponse t, r_text = askResponseText t,
                                        r_images = askResponseImages t\<rparr>,
                                  emit EmitTaskAskResponded (clearAskResponse t))) \<and>
            (\<forall>s0. \<exists>e s'. ask ty tx (Some True) pr now script s0 = Some (Inl e, s'))"
proof -
  define s1 where "s1 = snd (ask_begin ty tx None pr now s)"
  define woke where "woke = find (askWaitCondition now) (checks script s1)"
  have started: "ask_begin ty tx None pr now s = (Inr now, s1)"
    using assms by (simp add: s1_def ask_begin_atomic)
  have slot: "askResponse s1 = None" "lastMessageTs s1 = Some now"
    using assms by (simp_all add: s1_def ask_begin_atomic)
  have res: "ask ty tx None pr now script s = map_option (ask_finish now) woke"
    by (simp add: ask_def started pWaitFor_find woke_def split: option.split)
  have blocked: "woke = None \<longleftrightarrow>
      (\<forall>t \<in> set (checks script s1). askResponse t = None \<and> lastMessageTs t = Some now)"
    by (auto simp add: woke_def find_None_iff askWaitCondition_def)
  have superseded: "\<forall>t. woke = Some t \<and> lastMessageTs t \<noteq> Some now \<longrightarrow>
      ask ty tx None pr now script s = Some (Inl AskIgnored, t)"
    by (simp add: res ask_finish_def)
  have answered: "\<forall>t. woke = Some t \<and> lastMessageTs t = Some now \<longrightarrow>
      askResponse t \<noteq> None \<and>
      ask ty tx None pr now script s =
        Some (Inr \<lparr>response = askResponse t, r_text = askResponseText t,
                   r_images = askResponseImages t\<rparr>,
              emit EmitTaskAskResponded (clearAskResponse t))"
  proof (intro allI impI)
    fix t assume t: "woke = Some t \<and> lastMessageTs t = Some now"
    then have "askWaitCondition now t"
      by (auto simp add: woke_def find_Some_iff)
    with t show "askResponse t \<noteq> None \<and>
      ask ty tx None pr now script s =
        Some (Inr \<lparr>response = askResponse t, r_text = askResponseText t,
                   r_images = askResponseImages t\<rparr>,
              emit EmitTaskAskResponded (clearAskResponse t))"
      by (simp add: res ask_finish_def askWaitCondition_def)
  qed
  have none: "woke = None \<longrightarrow> ask ty tx None pr now script s = None"
    by (simp add: res)
  show ?thesis
    unfolding Let_def s1_def [symmetric] woke_def [symmetric]
    using slot blocked none superseded answered ask_partial_raises by blast
qed

theorem atomic_ask_blocks_until_answered_or_superseded_witness:
  "\<not> abort newTask \<and>
   ask ''followup'' (Some ''q'') None None 5 [\<lambda>t. t] newTask = None \<and>
   (\<exists>s'. ask ''followup'' (Some ''q'') None None 5
            [\<lambda>t. t, handleWebviewAskResponse yesButtonClicked (Some ''ok'') None] newTask =
          Some (Inr \<lparr>response = Some yesButtonClicked, r_text = Some ''ok'', r_images = None\<rparr>, s')) \<and>
   (\<exists>s'. ask ''followup'' (Some ''q'') None None 5
            [\<lambda>t. t\<lparr>lastMessageTs := Some 6\<rparr>] newTask = Some (Inl AskIgnored, s'))"
proof -
  have live: "\<not> abort newTask" by (simp add: newTask_def)
  note th = atomic_ask_blocks_until_answered_or_superseded [OF live, of "''followup''" "Some ''q''" None 5]
  have 1: "ask ''followup'' (Some ''q'') None None 5 [\<lambda>t. t] newTask = None"
    using th [of "[\<lambda>t. t]"]
    by (simp add: Let_def ask_begin_atomic live askWaitCondition_def)
  have 2: "\<exists>s'. ask ''followup'' (Some ''q'') None None 5
            [\<lambda>t. t, handleWebviewAskResponse yesButtonClicked (Some ''ok'') None] newTask =
          Some (Inr \<lparr>response = Some yesButtonClicked, r_text = Some ''ok'', r_images = None\<rparr>, s')"
    using th [of "[\<lambda>t. t, handleWebviewAskResponse yesButtonClicked (Some ''ok'') None]"]
    by (simp add: Let_def ask_begin_atomic live askWaitCondition_def handleWebviewAskResponse_def)
  have 3: "\<exists>s'. ask ''followup'' (Some ''q'') None None 5
            [\<lambda>t. t\<lparr>lastMessageTs := Some 6\<rparr>] newTask = Some (Inl AskIgnored, s')"
    using th [of "[\<lambda>t. t\<lparr>lastMessageTs := Some 6\<rparr>]"]
    by (simp add: Let_def ask_begin_atomic live askWaitCondition_def)
  from live 1 2 3 show ?thesis by blast
qed

text \<open>
  The claim C9 as stated says that every newly created ask starts by clearing the slot.
  A new partial ask does not: after it, the response stored before is still there.
\<close>

theorem partial_ask_keeps_response_slot:
  "askResponse (snd (ask_begin ''tool'' (Some ''x'') (Some True) None 5
      (handleWebviewAskResponse yesButtonClicked None None newTask))) = Some yesButtonClicked"
  by (simp add: ask_begin_def handleWebviewAskResponse_def newTask_def
      isUpdatingPreviousPartialAsk_def)


lemma ask_begin_Inr:
  assumes "ask_begin ty tx p pr now s = (Inr askTs, s1)"
  shows "\<not> abort s \<and> p \<noteq> Some True"
  using assms
  by (auto simp add: ask_begin_def Let_def split: if_splits option.splits bool.splits)

lemma ask_begin_Inr_cleared:
  assumes "ask_begin ty tx p pr now s = (Inr askTs, s1)"
  shows "askResponse s1 = None \<and> askResponseText s1 = None \<and> askResponseImages s1 = None"
proof -
  from ask_begin_Inr [OF assms] have "\<not> abort s" and "p \<noteq> Some True" by simp_all
  from ask_begin_waits [OF this, of ty tx pr now] assms show ?thesis by auto
qed

lemma checks_keep_empty_slot:
  "askResponse s = None \<Longrightarrow>
   (\<forall>f \<in> set script. \<forall>t. askResponse t = None \<longrightarrow> askResponse (f t) = None) \<Longrightarrow>
   \<forall>t \<in> set (checks script s). askResponse t = None"
proof (induction script arbitrary: s)
  case Nil
  then show ?case by simp
next
  case (Cons f fs)
  from Cons.prems have "askResponse (f s) = None" by simp
  from Cons.IH [OF this] Cons.prems show ?case by simp
qed

lemma ask_finish_Inr_cleared:
  "ask_finish askTs t = (Inr res, s') \<Longrightarrow>
   askResponse s' = None \<and> askResponseText s' = None \<and> askResponseImages s' = None \<and>
   response res = askResponse t \<and> lastMessageTs t = Some askTs"
  by (auto simp add: ask_finish_def split: if_splits)

lemma ask_Inr_cases:
  assumes "ask ty tx p pr now script s = Some (Inr res, s')"
  shows "\<exists>askTs s1 t. ask_begin ty tx p pr now s = (Inr askTs, s1) \<and>
           find (askWaitCondition askTs) (checks script s1) = Some t \<and>
           ask_finish askTs t = (Inr res, s')"
  using assms
  by (auto simp add: ask_def pWaitFor_find split: prod.splits sum.splits option.splits)

text \<open>
  Claim C9, amended. An ask that returns a response has cleared the response slot before
  it returns. Every ask that goes on to wait for a response (partial undefined or false, on
  a live task) has cleared the slot before it waits. An ask with partial=true leaves the
  slot as it is, but it always raises. So a response stored before an ask starts is never
  that ask's answer: if nothing stores a response during the wait, the ask does not return
  one.
\<close>

theorem stored_response_answers_one_ask:
  "(ask ty tx p pr now script s = Some (Inr res, s') \<longrightarrow>
      askResponse s' = None \<and> askResponseText s' = None \<and> askResponseImages s' = None) \<and>
   (\<not> abort s \<and> p \<noteq> Some True \<longrightarrow>
      (\<exists>askTs s1. ask_begin ty tx p pr now s = (Inr askTs, s1) \<and>
         askResponse s1 = None \<and> askResponseText s1 = None \<and> askResponseImages s1 = None)) \<and>
   (p = Some True \<longrightarrow> (\<exists>e s1. ask ty tx p pr now script s = Some (Inl e, s1))) \<and>
   ((\<forall>f \<in> set script. \<forall>t. askResponse t = None \<longrightarrow> askResponse (f t) = None) \<longrightarrow>
      ask ty tx p pr now script s \<noteq> Some (Inr res, s'))"
proof -
  have returned: "ask ty tx p pr now script s = Some (Inr res, s') \<longrightarrow>
      askResponse s' = None \<and> askResponseText s' = None \<and> askResponseImages s' = None"
    using ask_Inr_cases [of ty tx p pr now script s res s'] ask_finish_Inr_cleared by blast
  have started: "\<not> abort s \<and> p \<noteq> Some True \<longrightarrow>
      (\<exists>askTs s1. ask_begin ty tx p pr now s = (Inr askTs, s1) \<and>
         askResponse s1 = None \<and> askResponseText s1 = None \<and> askResponseImages s1 = None)"
    using ask_begin_waits [of s p ty tx pr now] by blast
  have partial: "p = Some True \<longrightarrow> (\<exists>e s1. ask ty tx p pr now script s = Some (Inl e, s1))"
    using ask_partial_raises by blast
  have stale: "ask ty tx p pr now script s \<noteq> Some (Inr res, s')"
    if quiet: "\<forall>f \<in> set script. \<forall>t. askResponse t = None \<longrightarrow> askResponse (f t) = None"
  proof
    assume "ask ty tx p pr now script s = Some (Inr res, s')"
    from ask_Inr_cases [OF this] obtain askTs s1 t where
      b: "ask_begin ty tx p pr now s = (Inr askTs, s1)" and
      w: "find (askWaitCondition askTs) (checks script s1) = Some t" and
      f: "ask_finish askTs t = (Inr res, s')" by blast
    from ask_begin_Inr_cleared [OF b] have "askResponse s1 = None" by simp
    from checks_keep_empty_slot [OF this quiet] w have "askResponse t = None"
      by (auto simp add: find_Some_iff)
    moreover from w have "askWaitCondition askTs t" by (auto simp add: find_Some_iff)
    moreover from ask_finish_Inr_cleared [OF f] have "lastMessageTs t = Some askTs" by simp
    ultimately show False by (simp add: askWaitCondition_def)
  qed
  from returned started partial stale show ?thesis by blast
qed

theorem stored_response_answers_one_ask_witness:
  "\<not> abort (handleWebviewAskResponse yesButtonClicked None None newTask) \<and>
   askResponse (handleWebviewAskResponse yesButtonClicked None None newTask) = Some yesButtonClicked \<and>
   (\<exists>askTs s1. ask_begin ''followup'' (Some ''q'') None None 5
        (handleWebviewAskResponse yesButtonClicked None None newTask) = (Inr askTs, s1) \<and>
      askResponse s1 = None) \<and>
   ask ''followup'' (Some ''q'') None None 5 [\<lambda>t. t, \<lambda>t. t]
     (handleWebviewAskResponse yesButtonClicked None None newTask) = None \<and>
   (\<exists>e s1. ask ''tool'' (Some ''x'') (Some True) None 5 []
     (handleWebviewAskResponse yesButtonClicked None None newTask) = Some (Inl e, s1))"
proof -
  let ?s = "handleWebviewAskResponse yesButtonClicked None None newTask"
  have live: "\<not> abort ?s" "askResponse ?s = Some yesButtonClicked"
    by (simp_all add: handleWebviewAskResponse_def newTask_def)
  have blocked: "ask ''followup'' (Some ''q'') None None 5 [\<lambda>t. t, \<lambda>t. t] ?s = None"
    using live by (simp add: ask_def ask_begin_atomic askWaitCondition_def)
  from stored_response_answers_one_ask
         [of "''followup''" "Some ''q''" None None 5 "[\<lambda>t. t, \<lambda>t. t]" ?s undefined undefined]
       stored_response_answers_one_ask
         [of "''tool''" "Some ''x''" "Some True" None 5 "[]" ?s undefined undefined]
       live blocked
  show ?thesis by auto
qed

section \<open>Partial messages are coalesced\<close>

lemma updateLast_snoc [simp]: "updateLast f (base @ [m]) = base @ [f m]"
  by (simp add: updateLast_def)

lemma say_partial_step:
  assumes "\<not> abort s" and "clineMessages s = base @ [m]" and "m_partial m = Some True"
    and "m_type m = TypeSay" and "m_say m = Some ty"
  shows "\<exists>s' m'. say ty tx im (Some True) ck pr ni cc now s = Inr s' \<and> \<not> abort s' \<and>
           clineMessages s' = base @ [m'] \<and> m_ts m' = m_ts m \<and> m_partial m' = Some True \<and>
           m_type m' = TypeSay \<and> m_say m' = Some ty"
  using assms by (simp add: say_def isUpdatingPreviousPartialSay_def Let_def)

lemma say_partial_first:
  assumes "\<not> abort s" and "\<not> isUpdatingPreviousPartialSay ty s"
  shows "\<exists>s' m'. say ty tx im (Some True) ck pr ni cc now s = Inr s' \<and> \<not> abort s' \<and>
           clineMessages s' = clineMessages s @ [m'] \<and> m_ts m' = now \<and> m_partial m' = Some True \<and>
           m_type m' = TypeSay \<and> m_say m' = Some ty"
  using assms by (simp add: say_def newMessage_def)

lemma say_final_step:
  assumes "\<not> abort s" and "clineMessages s = base @ [m]" and "m_partial m = Some True"
    and "m_type m = TypeSay" and "m_say m = Some ty"
  shows "\<exists>s' m'. say ty tx im (Some False) ck pr ni cc now s = Inr s' \<and>
           clineMessages s' = base @ [m'] \<and> m_ts m' = m_ts m \<and> m_partial m' = Some False \<and>
           m_type m' = TypeSay \<and> m_say m' = Some ty \<and> m_text m' = tx"
  using assms by (simp add: say_def isUpdatingPreviousPartialSay_def Let_def)

lemma sayPartials_open:
  assumes "\<not> abort s" and "clineMessages s = base @ [m]" and "m_partial m = Some True"
    and "m_type m = TypeSay" and "m_say m = Some ty"
  shows "\<exists>s' m'. sayPartials ty cs s = Inr s' \<and> \<not> abort s' \<and>
           clineMessages s' = base @ [m'] \<and> m_ts m' = m_ts m \<and> m_partial m' = Some True \<and>
           m_type m' = TypeSay \<and> m_say m' = Some ty"
  using assms
proof (induction cs arbitrary: s m)
  case Nil
  then show ?case by simp
next
  case (Cons c cs)
  obtain tx im pr ni cc now where c: "c = (tx, im, pr, ni, cc, now)"
    by (cases c) auto
  from say_partial_step [OF Cons.prems, of tx im None pr ni cc now]
  obtain s1 m1 where s1: "say ty tx im (Some True) None pr ni cc now s = Inr s1"
    and o: "\<not> abort s1" "clineMessages s1 = base @ [m1]" "m_partial m1 = Some True"
      "m_type m1 = TypeSay" "m_say m1 = Some ty" and t1: "m_ts m1 = m_ts m" by blast
  from Cons.IH [OF o] t1 s1 c show ?case by simp
qed

lemma ask_partial_step:
  assumes "\<not> abort s" and "clineMessages s = base @ [m]" and "m_partial m = Some True"
    and "m_type m = TypeAsk" and "m_ask m = Some ty"
  shows "\<exists>s' m'. snd (ask_begin ty tx (Some True) pr now s) = s' \<and> \<not> abort s' \<and>
           clineMessages s' = base @ [m'] \<and> m_ts m' = m_ts m \<and> m_partial m' = Some True \<and>
           m_type m' = TypeAsk \<and> m_ask m' = Some ty"
  using assms by (simp add: ask_begin_def isUpdatingPreviousPartialAsk_def Let_def)

lemma ask_partial_first:
  assumes "\<not> abort s" and "\<not> isUpdatingPreviousPartialAsk ty s"
  shows "\<exists>s' m'. snd (ask_begin ty tx (Some True) pr now s) = s' \<and> \<not> abort s' \<and>
           clineMessages s' = clineMessages s @ [m'] \<and> m_ts m' = now \<and> m_partial m' = Some True \<and>
           m_type m' = TypeAsk \<and> m_ask m' = Some ty"
  using assms by (simp add: ask_begin_def newMessage_def)

lemma ask_final_step:
  assumes "\<not> abort s" and "clineMessages s = base @ [m]" and "m_partial m = Some True"
    and "m_type m = TypeAsk" and "m_ask m = Some ty"
  shows "\<exists>s' m'. ask_begin ty tx (Some False) pr now s = (Inr (m_ts m), s') \<and>
           clineMessages s' = base @ [m'] \<and> m_ts m' = m_ts m \<and> m_partial m' = Some False \<and>
           m_type m' = TypeAsk \<and> m_ask m' = Some ty \<and> m_text m' = tx"
  using assms by (simp add: ask_begin_def isUpdatingPreviousPartialAsk_def Let_def)

lemma askPartials_open:
  assumes "\<not> abort s" and "clineMessages s = base @ [m]" and "m_partial m = Some True"
    and "m_type m = TypeAsk" and "m_ask m = Some ty"
  shows "\<exists>m'. \<not> abort (askPartials ty cs s) \<and>
           clineMessages (askPartials ty cs s) = base @ [m'] \<and> m_ts m' = m_ts m \<and>
           m_partial m' = Some True \<and> m_type m' = TypeAsk \<and> m_ask m' = Some ty"
  using assms
proof (induction cs arbitrary: s m)
  case Nil
  then show ?case by simp
next
  case (Cons c cs)
  obtain tx pr now where c: "c = (tx, pr, now)"
    by (cases c) auto
  from ask_partial_step [OF Cons.prems, of tx pr now]
  obtain s1 m1 where s1: "snd (ask_begin ty tx (Some True) pr now s) = s1"
    and o: "\<not> abort s1" "clineMessages s1 = base @ [m1]" "m_partial m1 = Some True"
      "m_type m1 = TypeAsk" "m_ask m1 = Some ty" and t1: "m_ts m1 = m_ts m" by blast
  from Cons.IH [OF o] t1 s1 c show ?case by simp
qed


lemma open_partial_say_split:
  assumes "isUpdatingPreviousPartialSay ty s"
  shows "clineMessages s = butlast (clineMessages s) @ [last (clineMessages s)] \<and>
         m_partial (last (clineMessages s)) = Some True \<and>
         m_type (last (clineMessages s)) = TypeSay \<and> m_say (last (clineMessages s)) = Some ty"
  using assms by (simp add: isUpdatingPreviousPartialSay_def)

lemma open_partial_ask_split:
  assumes "isUpdatingPreviousPartialAsk ty s"
  shows "clineMessages s = butlast (clineMessages s) @ [last (clineMessages s)] \<and>
         m_partial (last (clineMessages s)) = Some True \<and>
         m_type (last (clineMessages s)) = TypeAsk \<and> m_ask (last (clineMessages s)) = Some ty"
  using assms by (simp add: isUpdatingPreviousPartialAsk_def)

lemma streamed_say:
  assumes live: "\<not> abort s"
  shows "\<exists>s1 s2 m1 m2.
      sayPartials ty ((tx0, im0, pr0, ni0, cc0, now0) # cs) s = Inr s1 \<and>
      say ty tx im (Some False) ck pr ni cc now s1 = Inr s2 \<and>
      clineMessages s1 =
        (if isUpdatingPreviousPartialSay ty s then butlast (clineMessages s) else clineMessages s) @ [m1] \<and>
      clineMessages s2 =
        (if isUpdatingPreviousPartialSay ty s then butlast (clineMessages s) else clineMessages s) @ [m2] \<and>
      m_ts m1 = (if isUpdatingPreviousPartialSay ty s then m_ts (last (clineMessages s)) else now0) \<and>
      m_ts m2 = m_ts m1 \<and> m_partial m1 = Some True \<and> m_partial m2 = Some False \<and>
      m_type m2 = TypeSay \<and> m_say m2 = Some ty \<and> m_text m2 = tx"
proof -
  let ?base = "if isUpdatingPreviousPartialSay ty s then butlast (clineMessages s) else clineMessages s"
  let ?ts = "if isUpdatingPreviousPartialSay ty s then m_ts (last (clineMessages s)) else now0"
  have "\<exists>sa ma. say ty tx0 im0 (Some True) None pr0 ni0 cc0 now0 s = Inr sa \<and> \<not> abort sa \<and>
           clineMessages sa = ?base @ [ma] \<and> m_ts ma = ?ts \<and> m_partial ma = Some True \<and>
           m_type ma = TypeSay \<and> m_say ma = Some ty"
  proof (cases "isUpdatingPreviousPartialSay ty s")
    case True
    from open_partial_say_split [OF True] say_partial_step [OF live, of "butlast (clineMessages s)"
        "last (clineMessages s)" ty tx0 im0 None pr0 ni0 cc0 now0] True
    show ?thesis by simp
  next
    case False
    from say_partial_first [OF live False, of tx0 im0 None pr0 ni0 cc0 now0] False
    show ?thesis by simp
  qed
  then obtain sa ma where sa: "say ty tx0 im0 (Some True) None pr0 ni0 cc0 now0 s = Inr sa"
    and oa: "\<not> abort sa" "clineMessages sa = ?base @ [ma]" "m_partial ma = Some True"
      "m_type ma = TypeSay" "m_say ma = Some ty" and ta: "m_ts ma = ?ts" by blast
  from sayPartials_open [OF oa, of cs]
  obtain s1 m1 where s1: "sayPartials ty cs sa = Inr s1"
    and o1: "\<not> abort s1" "clineMessages s1 = ?base @ [m1]" "m_partial m1 = Some True"
      "m_type m1 = TypeSay" "m_say m1 = Some ty" and t1: "m_ts m1 = m_ts ma" by blast
  from say_final_step [OF o1, of tx im ck pr ni cc now]
  obtain s2 m2 where s2: "say ty tx im (Some False) ck pr ni cc now s1 = Inr s2"
    and o2: "clineMessages s2 = ?base @ [m2]" "m_ts m2 = m_ts m1" "m_partial m2 = Some False"
      "m_type m2 = TypeSay" "m_say m2 = Some ty" "m_text m2 = tx" by blast
  have run: "sayPartials ty ((tx0, im0, pr0, ni0, cc0, now0) # cs) s = Inr s1"
    using sa s1 by simp
  from run s2 o1 o2 t1 ta show ?thesis by auto
qed

lemma streamed_ask:
  assumes live: "\<not> abort s"
  shows "\<exists>askTs s2 m1 m2.
      ask_begin ty tx (Some False) pr now (askPartials ty ((tx0, pr0, now0) # cs) s) = (Inr askTs, s2) \<and>
      clineMessages (askPartials ty ((tx0, pr0, now0) # cs) s) =
        (if isUpdatingPreviousPartialAsk ty s then butlast (clineMessages s) else clineMessages s) @ [m1] \<and>
      clineMessages s2 =
        (if isUpdatingPreviousPartialAsk ty s then butlast (clineMessages s) else clineMessages s) @ [m2] \<and>
      m_ts m1 = (if isUpdatingPreviousPartialAsk ty s then m_ts (last (clineMessages s)) else now0) \<and>
      m_ts m2 = m_ts m1 \<and> askTs = m_ts m1 \<and> m_partial m1 = Some True \<and> m_partial m2 = Some False \<and>
      m_type m2 = TypeAsk \<and> m_ask m2 = Some ty \<and> m_text m2 = tx"
proof -
  let ?base = "if isUpdatingPreviousPartialAsk ty s then butlast (clineMessages s) else clineMessages s"
  let ?ts = "if isUpdatingPreviousPartialAsk ty s then m_ts (last (clineMessages s)) else now0"
  have "\<exists>sa ma. snd (ask_begin ty tx0 (Some True) pr0 now0 s) = sa \<and> \<not> abort sa \<and>
           clineMessages sa = ?base @ [ma] \<and> m_ts ma = ?ts \<and> m_partial ma = Some True \<and>
           m_type ma = TypeAsk \<and> m_ask ma = Some ty"
  proof (cases "isUpdatingPreviousPartialAsk ty s")
    case True
    from open_partial_ask_split [OF True] ask_partial_step [OF live, of "butlast (clineMessages s)"
        "last (clineMessages s)" ty tx0 pr0 now0] True
    show ?thesis by simp
  next
    case False
    from ask_partial_first [OF live False, of tx0 pr0 now0] False
    show ?thesis by simp
  qed
  then obtain sa ma where sa: "snd (ask_begin ty tx0 (Some True) pr0 now0 s) = sa"
    and oa: "\<not> abort sa" "clineMessages sa = ?base @ [ma]" "m_partial ma = Some True"
      "m_type ma = TypeAsk" "m_ask ma = Some ty" and ta: "m_ts ma = ?ts" by blast
  from askPartials_open [OF oa, of cs]
  obtain m1 where o1: "\<not> abort (askPartials ty cs sa)"
      "clineMessages (askPartials ty cs sa) = ?base @ [m1]" "m_partial m1 = Some True"
      "m_type m1 = TypeAsk" "m_ask m1 = Some ty" and t1: "m_ts m1 = m_ts ma" by blast
  from ask_final_step [OF o1, of tx pr now]
  obtain s2 m2 where s2: "ask_begin ty tx (Some False) pr now (askPartials ty cs sa) = (Inr (m_ts m1), s2)"
    and o2: "clineMessages s2 = ?base @ [m2]" "m_ts m2 = m_ts m1" "m_partial m2 = Some False"
      "m_type m2 = TypeAsk" "m_ask m2 = Some ty" "m_text m2 = tx" by blast
  have run: "askPartials ty ((tx0, pr0, now0) # cs) s = askPartials ty cs sa"
    using sa by simp
  from s2 o1 o2 t1 ta show ?thesis unfolding run by auto
qed

text \<open>
  Claim C1. On a live task, a run of one or more partial=true calls of one kind and subtype
  followed by the partial=false call leaves exactly one entry for the message in the display
  log: the entries before it are unchanged (if the log already ended in an open partial of
  that kind and subtype, that entry is the message's and is continued), the entry is
  complete and holds the final text, and its timestamp is the one it was created with,
  after the partial calls as well as after the completing call, which reuses it. This holds
  for \<^verbatim>\<open>say\<close> and for \<^verbatim>\<open>ask\<close>, whose completing call goes on to wait under that same
  timestamp.
\<close>

theorem streamed_message_is_one_entry:
  assumes "\<not> abort s"
  shows "(\<exists>s1 s2 m1 m2.
      sayPartials ty ((tx0, im0, pr0, ni0, cc0, now0) # cs) s = Inr s1 \<and>
      say ty tx im (Some False) ck pr ni cc now s1 = Inr s2 \<and>
      clineMessages s1 =
        (if isUpdatingPreviousPartialSay ty s then butlast (clineMessages s) else clineMessages s) @ [m1] \<and>
      clineMessages s2 =
        (if isUpdatingPreviousPartialSay ty s then butlast (clineMessages s) else clineMessages s) @ [m2] \<and>
      m_ts m1 = (if isUpdatingPreviousPartialSay ty s then m_ts (last (clineMessages s)) else now0) \<and>
      m_ts m2 = m_ts m1 \<and> m_partial m1 = Some True \<and> m_partial m2 = Some False \<and>
      m_type m2 = TypeSay \<and> m_say m2 = Some ty \<and> m_text m2 = tx) \<and>
   (\<exists>askTs s2 m1 m2.
      ask_begin aty atx (Some False) apr anow (askPartials aty ((atx0, apr0, anow0) # acs) s) =
        (Inr askTs, s2) \<and>
      clineMessages (askPartials aty ((atx0, apr0, anow0) # acs) s) =
        (if isUpdatingPreviousPartialAsk aty s then butlast (clineMessages s) else clineMessages s) @ [m1] \<and>
      clineMessages s2 =
        (if isUpdatingPreviousPartialAsk aty s then butlast (clineMessages s) else clineMessages s) @ [m2] \<and>
      m_ts m1 = (if isUpdatingPreviousPartialAsk aty s then m_ts (last (clineMessages s)) else anow0) \<and>
      m_ts m2 = m_ts m1 \<and> askTs = m_ts m1 \<and> m_partial m1 = Some True \<and> m_partial m2 = Some False \<and>
      m_type m2 = TypeAsk \<and> m_ask m2 = Some aty \<and> m_text m2 = atx)"
  by (intro conjI streamed_say streamed_ask assms)

theorem streamed_message_is_one_entry_witness:
  "\<not> abort newTask \<and>
   (\<exists>s1 s2.
      sayPartials ''text'' [(Some ''H'', None, None, False, None, 10),
                            (Some ''He'', None, None, False, None, 11)] newTask = Inr s1 \<and>
      say ''text'' (Some ''Hello'') None (Some False) None None False None 12 s1 = Inr s2 \<and>
      map m_ts (clineMessages s1) = [10] \<and> map m_ts (clineMessages s2) = [10] \<and>
      map m_text (clineMessages s2) = [Some ''Hello''] \<and>
      map m_partial (clineMessages s2) = [Some False]) \<and>
   (\<exists>s2.
      ask_begin ''tool'' (Some ''edit'') (Some False) None 22
        (askPartials ''tool'' [(Some ''e'', None, 20), (Some ''ed'', None, 21)] newTask) = (Inr 20, s2) \<and>
      map m_ts (clineMessages s2) = [20] \<and> map m_text (clineMessages s2) = [Some ''edit''])"
proof -
  have live: "\<not> abort newTask" by (simp add: newTask_def)
  have fresh: "\<not> isUpdatingPreviousPartialSay ''text'' newTask"
    "\<not> isUpdatingPreviousPartialAsk ''tool'' newTask" "clineMessages newTask = []"
    by (simp_all add: isUpdatingPreviousPartialSay_def isUpdatingPreviousPartialAsk_def newTask_def)
  from streamed_message_is_one_entry [OF live, of "''text''" "Some ''H''" None None False None 10
      "[(Some ''He'', None, None, False, None, 11)]" "Some ''Hello''" None None None False None 12
      "''tool''" "Some ''edit''" None 22 "Some ''e''" None 20 "[(Some ''ed'', None, 21)]"]
  show ?thesis using live fresh by auto
qed

section \<open>What a call publishes\<close>

lemma env_fields [simp]:
  "providerAlive (setLastMessageTs b t s) = providerAlive s"
  "saveTaskMessagesFails (setLastMessageTs b t s) = saveTaskMessagesFails s"
  "taskMetadataFails (setLastMessageTs b t s) = taskMetadataFails s"
  "providerAlive (clearAskResponse s) = providerAlive s"
  "saveTaskMessagesFails (clearAskResponse s) = saveTaskMessagesFails s"
  "taskMetadataFails (clearAskResponse s) = taskMetadataFails s"
  by (simp_all add: setLastMessageTs_def clearAskResponse_def)

lemma saveClineMessages_events:
  assumes "\<not> saveTaskMessagesFails s" and "\<not> taskMetadataFails s"
  shows "events (saveClineMessages s) =
           events s @ [SavedTaskMessages (clineMessages s), DerivedTaskMetadata (clineMessages s),
                       EmitTaskTokenUsageUpdated] @
           (if providerAlive s then [UpdatedTaskHistory] else [])"
  using assms
  by (simp add: saveClineMessages_def saveTaskMessages_def taskMetadata_def viaProvider_def emit_def)

lemma addToClineMessages_events:
  assumes "\<not> saveTaskMessagesFails s" and "\<not> taskMetadataFails s"
  shows "events (addToClineMessages m s) =
           events s @ (if providerAlive s then [PostedStateToWebview] else []) @
           [EmitMessage created m, SavedTaskMessages (clineMessages s @ [m]),
            DerivedTaskMetadata (clineMessages s @ [m]), EmitTaskTokenUsageUpdated] @
           (if providerAlive s then [UpdatedTaskHistory] else [])"
  using assms
  by (simp add: addToClineMessages_def saveClineMessages_events viaProvider_def)

lemma updateClineMessage_events:
  "events (updateClineMessage m s) =
     events s @ (if providerAlive s then [PostedPartialMessage m] else []) @ [EmitMessage updated m]"
  by (simp add: updateClineMessage_def viaProvider_def)

lemma say_publishes:
  assumes "\<not> abort s" and "\<not> saveTaskMessagesFails s" and "\<not> taskMetadataFails s"
  shows "\<exists>s' added. say ty tx im p ck pr ni cc now s = Inr s' \<and> events s' = events s @ added \<and>
           (if p = Some True \<and> isUpdatingPreviousPartialSay ty s
            then added = (if providerAlive s then [PostedPartialMessage (last (clineMessages s'))] else []) @
                         [EmitMessage updated (last (clineMessages s'))]
            else persistedAndPublished s' added)"
proof (cases p)
  case None
  with assms show ?thesis
    by (simp add: say_def addToClineMessages_events persistedAndPublished_def)
next
  case (Some b)
  show ?thesis
  proof (cases "isUpdatingPreviousPartialSay ty s")
    case True
    then have ne: "clineMessages s \<noteq> []" by (simp add: isUpdatingPreviousPartialSay_def)
    from True Some assms ne show ?thesis
      by (cases b) (simp_all add: say_def Let_def updateClineMessage_events saveClineMessages_events
          persistedAndPublished_def updateLast_def)
  next
    case False
    with Some assms show ?thesis
      by (cases b) (simp_all add: say_def addToClineMessages_events persistedAndPublished_def)
  qed
qed


lemma ask_publishes:
  assumes "\<not> abort s" and "\<not> saveTaskMessagesFails s" and "\<not> taskMetadataFails s"
  shows "\<exists>added. events (snd (ask_begin ty tx p pr now s)) = events s @ added \<and>
           (if p = Some True \<and> isUpdatingPreviousPartialAsk ty s
            then added =
                   (if providerAlive s
                    then [PostedPartialMessage (last (clineMessages (snd (ask_begin ty tx p pr now s))))]
                    else []) @
                   [EmitMessage updated (last (clineMessages (snd (ask_begin ty tx p pr now s))))]
            else persistedAndPublished (snd (ask_begin ty tx p pr now s)) added)"
proof (cases p)
  case None
  with assms show ?thesis
    by (simp add: ask_begin_def addToClineMessages_events persistedAndPublished_def)
next
  case (Some b)
  show ?thesis
  proof (cases "isUpdatingPreviousPartialAsk ty s")
    case True
    then have ne: "clineMessages s \<noteq> []" by (simp add: isUpdatingPreviousPartialAsk_def)
    from True Some assms ne show ?thesis
      by (cases b) (simp_all add: ask_begin_def Let_def updateClineMessage_events
          saveClineMessages_events persistedAndPublished_def updateLast_def)
  next
    case False
    with Some assms show ?thesis
      by (cases b) (simp_all add: ask_begin_def addToClineMessages_events persistedAndPublished_def)
  qed
qed

text \<open>
  Claim C8, amended. On a live task with a working persistence layer, every ask or say call
  that appends a display message or completes the trailing partial one saves the log as it
  now is, derives the metadata from it and notifies the message listeners of the entry. A
  partial=true call that updates the trailing partial in place only notifies: it adds the
  partial-message post (while the provider is alive) and the update event to the trace, and
  nothing else.
\<close>

theorem display_log_mutation_publishes:
  assumes "\<not> abort s" and "\<not> saveTaskMessagesFails s" and "\<not> taskMetadataFails s"
  shows "(\<exists>s' added. say ty tx im p ck pr ni cc now s = Inr s' \<and> events s' = events s @ added \<and>
           (if p = Some True \<and> isUpdatingPreviousPartialSay ty s
            then added = (if providerAlive s then [PostedPartialMessage (last (clineMessages s'))] else []) @
                         [EmitMessage updated (last (clineMessages s'))]
            else persistedAndPublished s' added)) \<and>
         (\<exists>added. events (snd (ask_begin aty atx ap apr anow s)) = events s @ added \<and>
           (if ap = Some True \<and> isUpdatingPreviousPartialAsk aty s
            then added =
                   (if providerAlive s
                    then [PostedPartialMessage (last (clineMessages (snd (ask_begin aty atx ap apr anow s))))]
                    else []) @
                   [EmitMessage updated (last (clineMessages (snd (ask_begin aty atx ap apr anow s))))]
            else persistedAndPublished (snd (ask_begin aty atx ap apr anow s)) added))"
  by (intro conjI say_publishes ask_publishes assms)

text \<open>
  The claim C8 as stated includes the in-place updates of a trailing partial message. The
  second of two partial says adds only the post of the partial message and the update
  event: the log with the new text is neither saved nor used to derive the metadata.
\<close>

theorem partial_update_is_not_persisted:
  "events (projr (say ''text'' (Some ''He'') None (Some True) None None False None 11
             (projr (say ''text'' (Some ''H'') None (Some True) None None False None 10 newTask)))) =
     [PostedStateToWebview,
      EmitMessage created ((newMessage 10 TypeSay)\<lparr>m_say := Some ''text'', m_text := Some ''H'',
                             m_partial := Some True\<rparr>),
      SavedTaskMessages [(newMessage 10 TypeSay)\<lparr>m_say := Some ''text'', m_text := Some ''H'',
                             m_partial := Some True\<rparr>],
      DerivedTaskMetadata [(newMessage 10 TypeSay)\<lparr>m_say := Some ''text'', m_text := Some ''H'',
                             m_partial := Some True\<rparr>],
      EmitTaskTokenUsageUpdated,
      UpdatedTaskHistory,
      PostedPartialMessage ((newMessage 10 TypeSay)\<lparr>m_say := Some ''text'', m_text := Some ''He'',
                             m_partial := Some True\<rparr>),
      EmitMessage updated ((newMessage 10 TypeSay)\<lparr>m_say := Some ''text'', m_text := Some ''He'',
                             m_partial := Some True\<rparr>)]"
  by (simp add: say_def newTask_def isUpdatingPreviousPartialSay_def Let_def setLastMessageTs_def
      addToClineMessages_def saveClineMessages_def saveTaskMessages_def taskMetadata_def
      updateClineMessage_def viaProvider_def emit_def updateLast_def newMessage_def)

theorem display_log_mutation_publishes_witness:
  "\<not> abort newTask \<and> \<not> saveTaskMessagesFails newTask \<and> \<not> taskMetadataFails newTask \<and>
   (\<exists>s' added. say ''text'' (Some ''hi'') None None None None False None 7 newTask = Inr s' \<and>
      events s' = added \<and> persistedAndPublished s' added) \<and>
   (\<exists>added. events (snd (ask_begin ''followup'' (Some ''q'') None None 8 newTask)) = added \<and>
      persistedAndPublished (snd (ask_begin ''followup'' (Some ''q'') None None 8 newTask)) added)"
proof -
  have ok: "\<not> abort newTask" "\<not> saveTaskMessagesFails newTask" "\<not> taskMetadataFails newTask"
    "events newTask = []"
    by (simp_all add: newTask_def)
  from display_log_mutation_publishes [OF ok(1) ok(2) ok(3), of "''text''" "Some ''hi''" None None
      None None False None 7 "''followup''" "Some ''q''" None None 8]
  show ?thesis using ok by simp
qed

section \<open>The mistake-limit guard resets the counter\<close>

text \<open>
  Claim C7. A loop iteration entered on a live task with the consecutive-mistake counter at
  or above its limit issues the \<^verbatim>\<open>mistake_limit_reached\<close> ask and is blocked exactly as long
  as that ask is. Whenever the iteration goes on to the request, the counter is 0, and the
  user content is the one it was entered with, extended exactly once by the guidance block
  (and the image blocks) when the operator answered with a message, unchanged otherwise.
  Whenever the ask returns a response and the task is still live, the iteration does go on,
  with the counter at 0, whatever the response was.
\<close>

theorem mistake_limit_guard_resets_counter:
  assumes "\<not> abort s" and "consecutiveMistakeLimit s \<le> consecutiveMistakeCount s"
  shows "(recursivelyMakeClineRequests_guard tooManyMistakes imageBlocks isClaude userContent now script now2 s = None
            \<longleftrightarrow> ask ''mistake_limit_reached'' (Some (mistakeLimitText isClaude)) None None now script s = None) \<and>
         clineMessages (snd (ask_begin ''mistake_limit_reached'' (Some (mistakeLimitText isClaude)) None None now s)) =
           clineMessages s @ [(newMessage now TypeAsk)\<lparr>m_ask := Some ''mistake_limit_reached'',
                                 m_text := Some (mistakeLimitText isClaude)\<rparr>] \<and>
         (\<forall>uc s'. recursivelyMakeClineRequests_guard tooManyMistakes imageBlocks isClaude userContent now script now2 s =
                    Some (Inr uc, s') \<longrightarrow>
            consecutiveMistakeCount s' = 0 \<and>
            (\<exists>res s1. ask ''mistake_limit_reached'' (Some (mistakeLimitText isClaude)) None None now script s =
                        Some (Inr res, s1) \<and>
               uc = (if response res = Some messageResponse
                     then userContent @ [TextBlock (tooManyMistakes (r_text res))] @ imageBlocks (r_images res)
                     else userContent))) \<and>
         (\<forall>res s1. ask ''mistake_limit_reached'' (Some (mistakeLimitText isClaude)) None None now script s =
                      Some (Inr res, s1) \<and> \<not> abort s1 \<longrightarrow>
            (\<exists>uc s'. recursivelyMakeClineRequests_guard tooManyMistakes imageBlocks isClaude userContent now script now2 s =
                        Some (Inr uc, s') \<and> consecutiveMistakeCount s' = 0))"
proof -
  let ?ask = "ask ''mistake_limit_reached'' (Some (mistakeLimitText isClaude)) None None now script s"
  let ?guard = "recursivelyMakeClineRequests_guard tooManyMistakes imageBlocks isClaude userContent now script now2 s"
  have blocked: "?guard = None \<longleftrightarrow> ?ask = None"
    using assms
    by (auto simp add: recursivelyMakeClineRequests_guard_def split: option.splits sum.splits prod.splits)
  have issued: "clineMessages (snd (ask_begin ''mistake_limit_reached'' (Some (mistakeLimitText isClaude)) None None now s)) =
           clineMessages s @ [(newMessage now TypeAsk)\<lparr>m_ask := Some ''mistake_limit_reached'',
                                 m_text := Some (mistakeLimitText isClaude)\<rparr>]"
    using assms by (simp add: ask_begin_atomic)
  have proceeds: "\<forall>uc s'. ?guard = Some (Inr uc, s') \<longrightarrow>
            consecutiveMistakeCount s' = 0 \<and>
            (\<exists>res s1. ?ask = Some (Inr res, s1) \<and>
               uc = (if response res = Some messageResponse
                     then userContent @ [TextBlock (tooManyMistakes (r_text res))] @ imageBlocks (r_images res)
                     else userContent))"
    using assms
    by (auto simp add: recursivelyMakeClineRequests_guard_def
        split: option.splits sum.splits prod.splits if_splits)
  have answered: "\<forall>res s1. ?ask = Some (Inr res, s1) \<and> \<not> abort s1 \<longrightarrow>
            (\<exists>uc s'. ?guard = Some (Inr uc, s') \<and> consecutiveMistakeCount s' = 0)"
  proof (intro allI impI)
    fix res s1 assume a: "?ask = Some (Inr res, s1) \<and> \<not> abort s1"
    then obtain s2 where "say ''user_feedback'' (r_text res) (r_images res) None None None False None now2 s1 = Inr s2"
      using say_returns [of s1] by blast
    with a assms show "\<exists>uc s'. ?guard = Some (Inr uc, s') \<and> consecutiveMistakeCount s' = 0"
      by (simp add: recursivelyMakeClineRequests_guard_def)
  qed
  from blocked issued proceeds answered show ?thesis by blast
qed

theorem mistake_limit_guard_resets_counter_witness:
  "\<not> abort (newTask\<lparr>consecutiveMistakeCount := 3\<rparr>) \<and>
   consecutiveMistakeLimit (newTask\<lparr>consecutiveMistakeCount := 3\<rparr>) \<le>
     consecutiveMistakeCount (newTask\<lparr>consecutiveMistakeCount := 3\<rparr>) \<and>
   (\<exists>s'. recursivelyMakeClineRequests_guard (\<lambda>t. ''too many mistakes'') (\<lambda>i. []) True [TextBlock ''go''] 5
            [handleWebviewAskResponse yesButtonClicked None None] 6
            (newTask\<lparr>consecutiveMistakeCount := 3\<rparr>) = Some (Inr [TextBlock ''go''], s') \<and>
          consecutiveMistakeCount s' = 0) \<and>
   (\<exists>s'. recursivelyMakeClineRequests_guard (\<lambda>t. ''too many mistakes'') (\<lambda>i. []) True [TextBlock ''go''] 5
            [handleWebviewAskResponse messageResponse (Some ''smaller steps'') None] 6
            (newTask\<lparr>consecutiveMistakeCount := 3\<rparr>) =
            Some (Inr [TextBlock ''go'', TextBlock ''too many mistakes''], s') \<and>
          consecutiveMistakeCount s' = 0)"
proof -
  let ?s = "newTask\<lparr>consecutiveMistakeCount := 3\<rparr>"
  have pre: "\<not> abort ?s" "consecutiveMistakeLimit ?s \<le> consecutiveMistakeCount ?s"
    by (simp_all add: newTask_def)
  have a1: "\<exists>s1. ask ''mistake_limit_reached'' (Some (mistakeLimitText True)) None None 5
            [handleWebviewAskResponse yesButtonClicked None None] ?s =
          Some (Inr \<lparr>response = Some yesButtonClicked, r_text = None, r_images = None\<rparr>, s1) \<and> \<not> abort s1"
    using pre by (simp add: ask_def ask_begin_atomic askWaitCondition_def handleWebviewAskResponse_def
        ask_finish_def)
  have a2: "\<exists>s1. ask ''mistake_limit_reached'' (Some (mistakeLimitText True)) None None 5
            [handleWebviewAskResponse messageResponse (Some ''smaller steps'') None] ?s =
          Some (Inr \<lparr>response = Some messageResponse, r_text = Some ''smaller steps'', r_images = None\<rparr>, s1) \<and>
          \<not> abort s1"
    using pre by (simp add: ask_def ask_begin_atomic askWaitCondition_def handleWebviewAskResponse_def
        ask_finish_def)
  from mistake_limit_guard_resets_counter [OF pre, of "\<lambda>t. ''too many mistakes''" "\<lambda>i. []" True
      "[TextBlock ''go'']" 5 "[handleWebviewAskResponse yesButtonClicked None None]" 6] a1
  have w1: "\<exists>s'. recursivelyMakeClineRequests_guard (\<lambda>t. ''too many mistakes'') (\<lambda>i. []) True [TextBlock ''go''] 5
            [handleWebviewAskResponse yesButtonClicked None None] 6 ?s = Some (Inr [TextBlock ''go''], s') \<and>
          consecutiveMistakeCount s' = 0"
    by force
  from mistake_limit_guard_resets_counter [OF pre, of "\<lambda>t. ''too many mistakes''" "\<lambda>i. []" True
      "[TextBlock ''go'']" 5 "[handleWebviewAskResponse messageResponse (Some ''smaller steps'') None]" 6] a2
  have w2: "\<exists>s'. recursivelyMakeClineRequests_guard (\<lambda>t. ''too many mistakes'') (\<lambda>i. []) True [TextBlock ''go''] 5
            [handleWebviewAskResponse messageResponse (Some ''smaller steps'') None] 6 ?s =
            Some (Inr [TextBlock ''go'', TextBlock ''too many mistakes''], s') \<and>
          consecutiveMistakeCount s' = 0"
    by force
  from pre w1 w2 show ?thesis by blast
qed

section \<open>Retry after a first-chunk failure\<close>













section \<open>Failure while the stream is read\<close>

lemma saveClineMessages_no_request:
  "count_list (events (saveClineMessages s)) CreatedMessage = count_list (events s) CreatedMessage"
  by (simp add: saveClineMessages_def saveTaskMessages_def taskMetadata_def viaProvider_def emit_def)

lemma saveApiConversationHistory_no_request:
  "count_list (events (saveApiConversationHistory s)) CreatedMessage = count_list (events s) CreatedMessage"
  by (simp add: saveApiConversationHistory_def saveApiMessages_def emit_def)

lemma abortTask_fields:
  "abort (abortTask b s)" "abandoned (abortTask False s) = abandoned s"
  "apiConversationHistory (abortTask b s) = apiConversationHistory s"
  "EmitTaskAborted \<in> set (events (abortTask b s))"
  "count_list (events (abortTask b s)) CreatedMessage = count_list (events s) CreatedMessage"
  by (simp_all add: abortTask_def Let_def saveClineMessages_no_request)
     (simp add: saveClineMessages_def saveTaskMessages_def taskMetadata_def viaProvider_def emit_def)

lemma abortStream_fields:
  "abort (snd (abortStream idx loc reason info now s)) = abort s"
  "abandoned (snd (abortStream idx loc reason info now s)) = abandoned s"
  "apiConversationHistory (snd (abortStream idx loc reason info now s)) =
     apiConversationHistory s @
       [\<lparr>a_role = RoleAssistant,
         a_content = [TextBlock (assistantMessage loc @ interruptedMarker reason)], a_ts = now\<rparr>]"
  "count_list (events (snd (abortStream idx loc reason info now s))) CreatedMessage =
     count_list (events s) CreatedMessage"
  "set (events s) \<subseteq> set (events (snd (abortStream idx loc reason info now s)))"
  by (auto simp add: abortStream_def Let_def updateApiReqMsg_def saveClineMessages_no_request
      addToApiConversationHistory_def saveApiConversationHistory_no_request
      saveClineMessages_def saveTaskMessages_def taskMetadata_def viaProvider_def emit_def
      saveApiConversationHistory_def saveApiMessages_def
      split: sum.splits)

lemma afterStream_failed:
  assumes "\<not> abandoned s"
  shows "\<exists>e s'. afterStream (StreamThrew msg) loc idx info hf now s = (Inl e, s') \<and>
           abort s' \<and> \<not> isStreaming s' \<and> EmitTaskAborted \<in> set (events s') \<and>
           apiConversationHistory s' = apiConversationHistory s @
             [\<lparr>a_role = RoleAssistant,
               a_content = [TextBlock (assistantMessage loc @ interruptedMarker streaming_failed)],
               a_ts = now\<rparr>] \<and>
           count_list (events s') CreatedMessage = count_list (events s) CreatedMessage"
proof -
  let ?a = "abortTask False s"
  let ?r = "abortStream idx loc streaming_failed info now ?a"
  have ab: "abort (snd ?r)" by (simp add: abortStream_fields abortTask_fields)
  have hist: "apiConversationHistory (snd ?r) = apiConversationHistory s @
             [\<lparr>a_role = RoleAssistant,
               a_content = [TextBlock (assistantMessage loc @ interruptedMarker streaming_failed)],
               a_ts = now\<rparr>]"
    by (simp add: abortStream_fields abortTask_fields)
  have cnt: "count_list (events (snd ?r)) CreatedMessage = count_list (events s) CreatedMessage"
    by (simp add: abortStream_fields abortTask_fields)
  have ev: "EmitTaskAborted \<in> set (events (snd ?r))"
    using abortStream_fields(5) [of ?a idx loc streaming_failed info now] abortTask_fields(4) [of False s]
    by blast
  show ?thesis
  proof (cases ?r)
    case (Pair thrown s1)
    with ab hist cnt ev have s1: "abort s1" "apiConversationHistory s1 = apiConversationHistory s @
             [\<lparr>a_role = RoleAssistant,
               a_content = [TextBlock (assistantMessage loc @ interruptedMarker streaming_failed)],
               a_ts = now\<rparr>]"
      "count_list (events s1) CreatedMessage = count_list (events s) CreatedMessage"
      "EmitTaskAborted \<in> set (events s1)" by simp_all
    show ?thesis
    proof (cases thrown)
      case None
      with Pair assms s1 show ?thesis
        by (simp add: afterStream_def viaProvider_def emit_def)
    next
      case (Some e)
      with Pair assms s1 show ?thesis
        by (simp add: afterStream_def)
    qed
  qed
qed


lemma interruptedMarker_api_error:
  "interruptedMarker streaming_failed = [CHR 0x0A, CHR 0x0A] @ ''[Response interrupted by API Error]''"
  by (simp add: interruptedMarker_def)

text \<open>
  Claim C2, amended. When the stream has been established (the first chunk was received)
  and an error is thrown while it is read, on a task that has not been abandoned the
  handler cancels the task (the abort flag is set and \<^verbatim>\<open>taskAborted\<close> is emitted) and
  appends to the model-facing history an assistant message whose text is the output
  accumulated so far followed by \<^verbatim>\<open>[Response interrupted by API Error]\<close>; the request
  ends with an error and no further request is made. On an abandoned task the handler does
  nothing: the request ends with the task-aborted error, again without a retry, and the
  task is left as it was.
\<close>

theorem mid_stream_failure_cancels_task:
  assumes "attemptApiRequest 0 attempts
            (s\<lparr>didRejectTool := False, didAlreadyUseTool := False, isStreaming := True\<rparr>) = Some (Inr items, s1)"
    and "readStream idx env 0 items noLocals s1 = (StreamThrew msg, loc, s2)"
  shows "(\<not> abandoned s2 \<longrightarrow>
           (\<exists>e s'. streamRequest idx hf attempts env s = Some (Inl e, s') \<and>
              abort s' \<and> \<not> isStreaming s' \<and> EmitTaskAborted \<in> set (events s') \<and>
              apiConversationHistory s' = apiConversationHistory s2 @
                [\<lparr>a_role = RoleAssistant,
                  a_content = [TextBlock (assistantMessage loc @ [CHR 0x0A, CHR 0x0A] @
                                 ''[Response interrupted by API Error]'')],
                  a_ts = st_now (env (length items))\<rparr>] \<and>
              count_list (events s') CreatedMessage = count_list (events s2) CreatedMessage)) \<and>
         (abandoned s2 \<longrightarrow>
            streamRequest idx hf attempts env s = Some (Inl TaskAborted, s2\<lparr>isStreaming := False\<rparr>))"
proof -
  have run: "streamRequest idx hf attempts env s =
      Some (afterStream (StreamThrew msg) loc idx (st_info (env (length items))) hf
              (st_now (env (length items))) s2)"
    using assms by (simp add: streamRequest_def)
  have gone: "abandoned s2 \<longrightarrow>
      afterStream (StreamThrew msg) loc idx (st_info (env (length items))) hf
        (st_now (env (length items))) s2 = (Inl TaskAborted, s2\<lparr>isStreaming := False\<rparr>)"
    by (simp add: afterStream_def)
  from afterStream_failed [of s2 msg loc idx "st_info (env (length items))" hf "st_now (env (length items))"]
    run gone
  show ?thesis by (auto simp add: interruptedMarker_api_error)
qed

text \<open>
  The claim C2 as stated covers every streaming failure. On an abandoned task (here one
  abandoned while its request was streaming) the handler of a stream error leaves the task
  as it is: the history stays empty, and the partial output \<^verbatim>\<open>Hel\<close> is dropped.
\<close>

theorem abandoned_task_drops_partial_output:
  "afterStream (StreamThrew ''socket hang up'') (noLocals\<lparr>assistantMessage := ''Hel''\<rparr>) 0 ''{}'' True 5 (abortTask True ((projr (say ''api_req_started'' (Some ''{}'') None None None None False None 1 newTask))\<lparr>isStreaming := True\<rparr>)) =
     (Inl TaskAborted, (abortTask True ((projr (say ''api_req_started'' (Some ''{}'') None None None None False None 1 newTask))\<lparr>isStreaming := True\<rparr>))\<lparr>isStreaming := False\<rparr>) \<and>
   apiConversationHistory (abortTask True ((projr (say ''api_req_started'' (Some ''{}'') None None None None False None 1 newTask))\<lparr>isStreaming := True\<rparr>)) = []"
  by (simp add: afterStream_def abortTask_def Let_def say_def newTask_def setLastMessageTs_def
      addToClineMessages_def saveClineMessages_def saveTaskMessages_def taskMetadata_def
      viaProvider_def emit_def)

theorem mid_stream_failure_cancels_task_witness:
  "(\<exists>s1 s2. attemptApiRequest 0 [(\<lparr>at_state = \<lparr>autoApprovalEnabled = False, alwaysApproveResubmit = False, requestDelaySeconds = None, rateLimitSeconds = None\<rparr>, at_now = 0, at_requestTime = 1, at_clock = (\<lambda>p i. 2), at_during = (\<lambda>p i t. t), at_first = Inr (TextChunk ''Hel''), at_rest = [Yield (TextChunk ''lo''), Throw ''socket hang up''], at_ask = []\<rparr>)] (newTask\<lparr>didRejectTool := False, didAlreadyUseTool := False, isStreaming := True\<rparr>) =
       Some (Inr [Yield (TextChunk ''Hel''), Yield (TextChunk ''lo''), Throw ''socket hang up''], s1) \<and>
     readStream 0 (\<lambda>i. \<lparr>st_meanwhile = (\<lambda>t. t), st_present = (\<lambda>t. t), st_now = 10 + i, st_info = ''{}''\<rparr>) 0 [Yield (TextChunk ''Hel''), Yield (TextChunk ''lo''), Throw ''socket hang up'']
       noLocals s1 = (StreamThrew ''socket hang up'', noLocals\<lparr>assistantMessage := ''Hello''\<rparr>, s2) \<and>
     \<not> abandoned s2 \<and> apiConversationHistory s2 = [] \<and>
     count_list (events s2) CreatedMessage = 1) \<and>
   (\<exists>e s'. streamRequest 0 True [(\<lparr>at_state = \<lparr>autoApprovalEnabled = False, alwaysApproveResubmit = False, requestDelaySeconds = None, rateLimitSeconds = None\<rparr>, at_now = 0, at_requestTime = 1, at_clock = (\<lambda>p i. 2), at_during = (\<lambda>p i t. t), at_first = Inr (TextChunk ''Hel''), at_rest = [Yield (TextChunk ''lo''), Throw ''socket hang up''], at_ask = []\<rparr>)] (\<lambda>i. \<lparr>st_meanwhile = (\<lambda>t. t), st_present = (\<lambda>t. t), st_now = 10 + i, st_info = ''{}''\<rparr>) newTask = Some (Inl e, s') \<and> abort s' \<and>
      apiConversationHistory s' =
        [\<lparr>a_role = RoleAssistant,
          a_content = [TextBlock (''Hello'' @ [CHR 0x0A, CHR 0x0A] @ ''[Response interrupted by API Error]'')],
          a_ts = 13\<rparr>] \<and>
      count_list (events s') CreatedMessage = 1)"
proof -
  let ?A = "(\<lparr>at_state = \<lparr>autoApprovalEnabled = False, alwaysApproveResubmit = False, requestDelaySeconds = None, rateLimitSeconds = None\<rparr>, at_now = 0, at_requestTime = 1, at_clock = (\<lambda>p i. 2), at_during = (\<lambda>p i t. t), at_first = Inr (TextChunk ''Hel''), at_rest = [Yield (TextChunk ''lo''), Throw ''socket hang up''], at_ask = []\<rparr>)"
  let ?env = "(\<lambda>i. \<lparr>st_meanwhile = (\<lambda>t. t), st_present = (\<lambda>t. t), st_now = 10 + i, st_info = ''{}''\<rparr>)"
  let ?items = "[Yield (TextChunk ''Hel''), Yield (TextChunk ''lo''), Throw ''socket hang up'']"
  have pre: "\<exists>s1 s2. attemptApiRequest 0 [?A] (newTask\<lparr>didRejectTool := False, didAlreadyUseTool := False, isStreaming := True\<rparr>) = Some (Inr ?items, s1) \<and>
     readStream 0 ?env 0 ?items noLocals s1 =
       (StreamThrew ''socket hang up'', noLocals\<lparr>assistantMessage := ''Hello''\<rparr>, s2) \<and>
     \<not> abandoned s2 \<and> apiConversationHistory s2 = [] \<and>
     count_list (events s2) CreatedMessage = 1"
    by (simp add: beforeFirstChunk_def rateLimitDelay_def getState_def newTask_def processChunk_def
        noLocals_def emit_def Let_def)
  then obtain s1 s2 where
    a: "attemptApiRequest 0 [?A] (newTask\<lparr>didRejectTool := False, didAlreadyUseTool := False, isStreaming := True\<rparr>) = Some (Inr ?items, s1)" and
    r: "readStream 0 ?env 0 ?items noLocals s1 =
       (StreamThrew ''socket hang up'', noLocals\<lparr>assistantMessage := ''Hello''\<rparr>, s2)" and
    l: "\<not> abandoned s2" "apiConversationHistory s2 = []" "count_list (events s2) CreatedMessage = 1"
    by blast
  from mid_stream_failure_cancels_task [OF a r, of True] l
  have post: "\<exists>e s'. streamRequest 0 True [?A] ?env newTask = Some (Inl e, s') \<and> abort s' \<and>
      apiConversationHistory s' =
        [\<lparr>a_role = RoleAssistant,
          a_content = [TextBlock (''Hello'' @ [CHR 0x0A, CHR 0x0A] @ ''[Response interrupted by API Error]'')],
          a_ts = 13\<rparr>] \<and>
      count_list (events s') CreatedMessage = 1"
    by (auto simp add: noLocals_def)
  from pre post show ?thesis by blast
qed

end
